theory Spec2Isabelle
  imports Complex_Main "HOL-Library.Word" "HOL-Library.Log_Nat"
begin

section \<open>Data model\<close>

text \<open>
  The script \<^verbatim>\<open>recon_compare.py\<close> works on numpy arrays.  An array is its shape and
  its elements in row-major (C) order.  The element type \<open>'a\<close> stands for a numpy scalar
  of whatever dtype the array holds (complex or real floating point): its arithmetic is
  never spelled out here, it is supplied as a parameter (record \<open>numpy\<close> below), so every
  statement holds for the floating-point operations numpy really performs.
\<close>

datatype error = IndexError | ValueError | ZeroDivisionError | IOError | ExternalError string

record 'a ndarray =
  shape :: "nat list"
  data :: "'a list"

definition ndim :: "'a ndarray \<Rightarrow> nat" where
  "ndim a = length (shape a)"

definition wf_array :: "'a ndarray \<Rightarrow> bool" where
  "wf_array a \<longleftrightarrow> length (data a) = prod_list (shape a)"

text \<open>Row-major position of a multi-index, and the element \<open>a[i0, i1, ...]\<close>.\<close>

fun ravel :: "nat list \<Rightarrow> nat list \<Rightarrow> nat" where
  "ravel (n # s) (i # idx) = i * prod_list s + ravel s idx"
| "ravel _ _ = 0"

definition elem :: "'a ndarray \<Rightarrow> nat list \<Rightarrow> 'a" where
  "elem a idx = data a ! ravel (shape a) idx"

text \<open>\<^verbatim>\<open>a.shape[k]\<close> for a non-negative \<open>k\<close>: indexing the shape tuple raises IndexError
  out of range.\<close>

definition shape_at :: "'a ndarray \<Rightarrow> nat \<Rightarrow> error + nat" where
  "shape_at a k = (if k < length (shape a) then Inr (shape a ! k) else Inl IndexError)"

text \<open>\<^verbatim>\<open>a.shape[-1]\<close>.\<close>

definition shape_last :: "'a ndarray \<Rightarrow> error + nat" where
  "shape_last a = (if shape a = [] then Inl IndexError else Inr (last (shape a)))"

text \<open>
  Basic indexing with \<open>nidx\<close> index entries, one integer \<open>i\<close> at axis \<open>k\<close> and full
  slices elsewhere, as in \<^verbatim>\<open>a[:, :, :, i]\<close> (\<open>nidx = 4\<close>, \<open>k = 3\<close>) or \<^verbatim>\<open>a[:, i, :]\<close>
  (\<open>nidx = 3\<close>, \<open>k = 1\<close>); axes beyond the index entries are kept.  Too many indices for
  the array and an index beyond the axis extent raise IndexError.
\<close>

definition getitem_axis :: "nat \<Rightarrow> nat \<Rightarrow> nat \<Rightarrow> 'a ndarray \<Rightarrow> error + 'a ndarray" where
  "getitem_axis nidx k i a =
     (if nidx > length (shape a) \<or> k \<ge> length (shape a) then Inl IndexError
      else if i \<ge> shape a ! k then Inl IndexError
      else
        let outer = prod_list (take k (shape a));
            n = shape a ! k;
            inner = prod_list (drop (Suc k) (shape a))
        in Inr \<lparr> shape = take k (shape a) @ drop (Suc k) (shape a),
                 data = concat (map (\<lambda>out. take inner (drop ((out * n + i) * inner) (data a)))
                                    [0..<outer]) \<rparr>)"

text \<open>\<^verbatim>\<open>np.expand_dims(a, axis=0)\<close>.\<close>

definition expand_dims0 :: "'a ndarray \<Rightarrow> 'a ndarray" where
  "expand_dims0 a = a \<lparr> shape := 1 # shape a \<rparr>"

text \<open>\<^verbatim>\<open>np.reshape(a, s)\<close>: the sizes must agree.\<close>

definition np_reshape :: "'a ndarray \<Rightarrow> nat list \<Rightarrow> error + 'a ndarray" where
  "np_reshape a s =
     (if prod_list s = length (data a) then Inr (a \<lparr> shape := s \<rparr>) else Inl ValueError)"

subsection \<open>numpy's element arithmetic\<close>

text \<open>
  The operations of numpy on scalars.  With numpy's default error state they never
  raise: a floating-point division by zero yields \<open>inf\<close> or \<open>nan\<close> and a warning, so each
  operation is a total function.  \<open>lit_0_9\<close> and \<open>lit_255\<close> are the Python literals
  \<^verbatim>\<open>0.9\<close> and \<^verbatim>\<open>255\<close> as scalars; \<open>complex64\<close> is the conversion of one element by
  \<^verbatim>\<open>astype(np.complex64)\<close>, \<open>uint8\<close> the conversion by \<^verbatim>\<open>np.uint8(...)\<close>.
\<close>

record 'a numpy =
  np_mul :: "'a \<Rightarrow> 'a \<Rightarrow> 'a"
  np_div :: "'a \<Rightarrow> 'a \<Rightarrow> 'a"
  np_abs :: "'a \<Rightarrow> 'a"
  np_maximum :: "'a \<Rightarrow> 'a \<Rightarrow> 'a"
  complex64 :: "'a \<Rightarrow> 'a"
  uint8 :: "'a \<Rightarrow> 8 word"
  lit_0_9 :: "'a"
  lit_255 :: "'a"

definition map_array :: "('a \<Rightarrow> 'b) \<Rightarrow> 'a ndarray \<Rightarrow> 'b ndarray" where
  "map_array f a = \<lparr> shape = shape a, data = map f (data a) \<rparr>"

text \<open>\<^verbatim>\<open>a.astype(np.complex64)\<close>: a new array.\<close>

definition astype_complex64 :: "'a numpy \<Rightarrow> 'a ndarray \<Rightarrow> 'a ndarray" where
  "astype_complex64 N a = map_array (complex64 N) a"

text \<open>\<^verbatim>\<open>np.max(a)\<close>: a reduction with no identity, ValueError on an empty array.\<close>

definition np_max :: "'a numpy \<Rightarrow> 'a ndarray \<Rightarrow> error + 'a" where
  "np_max N a =
     (case data a of [] \<Rightarrow> Inl ValueError | v # vs \<Rightarrow> Inr (foldl (np_maximum N) v vs))"

subsection \<open>Broadcasting\<close>

text \<open>
  \<^verbatim>\<open>a * b\<close> on arrays: the shapes are aligned at their last axes, an extent of 1
  stretches, any other disagreement raises ValueError.
\<close>

definition pad_shape :: "nat \<Rightarrow> nat list \<Rightarrow> nat list" where
  "pad_shape n s = replicate (n - length s) 1 @ s"

fun broadcast_dims :: "nat list \<Rightarrow> nat list \<Rightarrow> error + nat list" where
  "broadcast_dims [] [] = Inr []"
| "broadcast_dims (m # s) (n # t) =
     (if m = n \<or> n = 1 \<or> m = 1 then
        (case broadcast_dims s t of
           Inl e \<Rightarrow> Inl e
         | Inr r \<Rightarrow> Inr ((if m = 1 then n else m) # r))
      else Inl ValueError)"
| "broadcast_dims _ _ = Inl ValueError"

definition broadcast_shapes :: "nat list \<Rightarrow> nat list \<Rightarrow> error + nat list" where
  "broadcast_shapes s t =
     (let n = max (length s) (length t) in broadcast_dims (pad_shape n s) (pad_shape n t))"

fun unravel :: "nat list \<Rightarrow> nat \<Rightarrow> nat list" where
  "unravel [] j = []"
| "unravel (n # s) j = (j div prod_list s) # unravel s (j mod prod_list s)"

text \<open>The position in an operand of padded shape \<open>s\<close> that the output multi-index
  \<open>idx\<close> reads: an axis of extent 1 is read at 0.\<close>

definition operand_pos :: "nat list \<Rightarrow> nat list \<Rightarrow> nat" where
  "operand_pos s idx = ravel s (map2 (\<lambda>n i. if n = 1 then 0 else i) s idx)"

definition np_multiply :: "'a numpy \<Rightarrow> 'a ndarray \<Rightarrow> 'a ndarray \<Rightarrow> error + 'a ndarray" where
  "np_multiply N a b =
     (case broadcast_shapes (shape a) (shape b) of
        Inl e \<Rightarrow> Inl e
      | Inr s \<Rightarrow>
          Inr \<lparr> shape = s,
                data = map (\<lambda>j. np_mul N
                                 (data a ! operand_pos (pad_shape (length s) (shape a)) (unravel s j))
                                 (data b ! operand_pos (pad_shape (length s) (shape b)) (unravel s j)))
                           [0..<prod_list s] \<rparr>)"

section \<open>Objects, files and effects\<close>

text \<open>
  Python passes arrays by reference and a callee may change an array it is handed.
  Arrays that are bound to a variable or handed to a routine outside this file live in
  a heap: an address is a position in the list, a new object goes to the end, nothing
  is ever freed.  The files written so far are a list of (path, content) in the order
  of the writes.  A statement takes the world and returns its result, or the
  exception it raises, with the world it leaves.
\<close>

type_synonym addr = nat

datatype 'a written = Npy "'a ndarray" | Png "8 word ndarray"

record 'a world =
  heap :: "'a ndarray list"
  files :: "(string \<times> 'a written) list"

type_synonym ('a, 'r) prog = "'a world \<Rightarrow> (error + 'r) \<times> 'a world"

definition ret :: "'r \<Rightarrow> ('a, 'r) prog" where
  "ret r w = (Inr r, w)"

definition raise :: "error \<Rightarrow> ('a, 'r) prog" where
  "raise e w = (Inl e, w)"

definition lift :: "error + 'r \<Rightarrow> ('a, 'r) prog" where
  "lift v w = (v, w)"

definition bindE :: "('a, 'r) prog \<Rightarrow> ('r \<Rightarrow> ('a, 'q) prog) \<Rightarrow> ('a, 'q) prog" where
  "bindE m f w = (case m w of (Inl e, w') \<Rightarrow> (Inl e, w') | (Inr r, w') \<Rightarrow> f r w')"

definition deref :: "addr \<Rightarrow> ('a, 'a ndarray) prog" where
  "deref p w = (Inr (heap w ! p), w)"

text \<open>A new array object holding \<open>v\<close>.\<close>

definition alloc :: "'a ndarray \<Rightarrow> ('a, addr) prog" where
  "alloc v w = (Inr (length (heap w)), w \<lparr> heap := heap w @ [v] \<rparr>)"

text \<open>\<^verbatim>\<open>x.copy()\<close>: a new object with the elements of the object at \<open>p\<close>.\<close>

definition np_copy :: "addr \<Rightarrow> ('a, addr) prog" where
  "np_copy p w = alloc (heap w ! p) w"

text \<open>
  A routine that \<^verbatim>\<open>recon_compare.py\<close> calls and does not define is given by what it
  does to the arrays it receives: its result (or exception) and the final contents of each argument.  It
  reaches no other array and writes none of the files of the run.
\<close>

type_synonym ('a, 'r) ext1 = "'a ndarray \<Rightarrow> (error + 'r) \<times> 'a ndarray"
type_synonym ('a, 'r) ext2 = "'a ndarray \<Rightarrow> 'a ndarray \<Rightarrow> (error + 'r) \<times> 'a ndarray \<times> 'a ndarray"

definition call1 :: "('a, 'r) ext1 \<Rightarrow> addr \<Rightarrow> ('a, 'r) prog" where
  "call1 f p w = (case f (heap w ! p) of (r, v) \<Rightarrow> (r, w \<lparr> heap := (heap w)[p := v] \<rparr>))"

definition call2 :: "('a, 'r) ext2 \<Rightarrow> addr \<Rightarrow> addr \<Rightarrow> ('a, 'r) prog" where
  "call2 f p q w =
     (case f (heap w ! p) (heap w ! q) of
        (r, v, u) \<Rightarrow> (r, w \<lparr> heap := (heap w)[p := v, q := u] \<rparr>))"

text \<open>\<^verbatim>\<open>np.save(path, x)\<close> and \<^verbatim>\<open>imageio.imwrite(path, img)\<close> record the content written.\<close>

definition np_save :: "string \<Rightarrow> addr \<Rightarrow> ('a, unit) prog" where
  "np_save path p w = (Inr (), w \<lparr> files := files w @ [(path, Npy (heap w ! p))] \<rparr>)"

definition imwrite :: "string \<Rightarrow> 8 word ndarray \<Rightarrow> ('a, unit) prog" where
  "imwrite path img w = (Inr (), w \<lparr> files := files w @ [(path, Png img)] \<rparr>)"

text \<open>\<^verbatim>\<open>os.path.join(a, b)\<close> on POSIX.\<close>

definition path_join :: "string \<Rightarrow> string \<Rightarrow> string" where
  "path_join a b =
     (if b \<noteq> [] \<and> hd b = CHR ''/'' then b
      else if a = [] \<or> last a = CHR ''/'' then a @ b
      else a @ ''/'' @ b)"

section \<open>The program\<close>

subsection \<open>Routines outside the file\<close>

text \<open>
  \<^verbatim>\<open>utils.metrics\<close>: the three metrics, each on two arrays (\<open>compute_ssim\<close> also takes
  \<open>sos_axis\<close>).  Their results are scalars of a type \<open>'m\<close>.
\<close>

record ('a, 'm) metrics =
  compute_psnr :: "('a, 'm) ext2"
  compute_nrmse :: "('a, 'm) ext2"
  compute_ssim :: "int option \<Rightarrow> ('a, 'm) ext2"

text \<open>
  The arithmetic of the metric scalars: addition, division, the conversion of a Python
  int, and what the division of such a scalar by the Python int 0 does (a Python float
  raises ZeroDivisionError, a numpy scalar gives \<open>inf\<close> or \<open>nan\<close>).
\<close>

record 'm arith =
  f_add :: "'m \<Rightarrow> 'm \<Rightarrow> 'm"
  f_div :: "'m \<Rightarrow> 'm \<Rightarrow> 'm"
  f_of_int :: "int \<Rightarrow> 'm"
  f_div_zero :: "'m \<Rightarrow> error + 'm"

text \<open>
  The other collaborators: the \<^verbatim>\<open>.npy\<close> files present before the run,
  \<^verbatim>\<open>sigpy.mri.poisson(shape, accel, calib, seed)\<close>,
  \<^verbatim>\<open>sigpy.mri.app.JsenseRecon(ksp, ksp_calib_width).run()\<close>, \<^verbatim>\<open>fftc.ifft3c\<close>,
  \<^verbatim>\<open>mri.sumofsq(x, axis)\<close> and \<^verbatim>\<open>recon_run.DeepRecon(name, channels, z, y, batch_size)\<close>,
  which gives the model's \<open>run\<close>.  Each returns a new array.
\<close>

record 'a extern =
  disk :: "string \<Rightarrow> 'a ndarray option"
  poisson :: "nat list \<Rightarrow> nat \<Rightarrow> nat list \<Rightarrow> nat \<Rightarrow> error + 'a ndarray"
  jsense_recon :: "nat \<Rightarrow> ('a, 'a ndarray) ext1"
  ifft3c :: "('a, 'a ndarray) ext1"
  sumofsq :: "int \<Rightarrow> ('a, 'a ndarray) ext1"
  deep_recon :: "string \<Rightarrow> nat \<Rightarrow> nat \<Rightarrow> nat \<Rightarrow> int \<Rightarrow> error + ('a, 'a ndarray) ext2"

text \<open>What a path holds: the last content this run wrote to it, else the \<^verbatim>\<open>.npy\<close> file
  that was on disk.  \<^verbatim>\<open>np.load(path)\<close> reads it into a new array.\<close>

definition stored :: "'a extern \<Rightarrow> 'a world \<Rightarrow> string \<Rightarrow> 'a written option" where
  "stored E w path =
     (case map_of (rev (files w)) path of
        Some c \<Rightarrow> Some c
      | None \<Rightarrow> map_option Npy (disk E path))"

definition np_load :: "'a extern \<Rightarrow> string \<Rightarrow> ('a, addr) prog" where
  "np_load E path w =
     (case stored E w path of
        Some (Npy a) \<Rightarrow> alloc a w
      | Some (Png img) \<Rightarrow> raise ValueError w
      | None \<Rightarrow> raise IOError w)"

subsection \<open>compute_metrics\<close>

text \<open>
  \<^verbatim>\<open>ssim_total\<close> starts as the Python int 0 and becomes a scalar with the first
  \<^verbatim>\<open>+=\<close>; \<^verbatim>\<open>ssim_total / ref.shape[-1]\<close> divides by a Python int, and int / 0 raises
  ZeroDivisionError.
\<close>

datatype 'm pynum = PyInt int | PyFloat 'm

fun py_iadd :: "'m arith \<Rightarrow> 'm pynum \<Rightarrow> 'm \<Rightarrow> 'm pynum" where
  "py_iadd A (PyInt k) v = PyFloat (f_add A (f_of_int A k) v)"
| "py_iadd A (PyFloat t) v = PyFloat (f_add A t v)"

fun py_truediv :: "'m arith \<Rightarrow> 'm pynum \<Rightarrow> int \<Rightarrow> error + 'm" where
  "py_truediv A (PyInt k) n =
     (if n = 0 then Inl ZeroDivisionError else Inr (f_div A (f_of_int A k) (f_of_int A n)))"
| "py_truediv A (PyFloat t) n =
     (if n = 0 then f_div_zero A t else Inr (f_div A t (f_of_int A n)))"

record 'm metrics_result =
  psnr :: "'m"
  nrmse :: "'m"
  ssim :: "'m"

text \<open>The body of \<^verbatim>\<open>for i in range(ref.shape[-1])\<close>, over the indices still to do.\<close>

fun ssim_loop ::
  "('a, 'm) metrics \<Rightarrow> 'm arith \<Rightarrow> addr \<Rightarrow> addr \<Rightarrow> nat list \<Rightarrow> 'm pynum \<Rightarrow> ('a, 'm pynum) prog"
where
  "ssim_loop M A ref x [] ssim_total = ret ssim_total"
| "ssim_loop M A ref x (i # rest) ssim_total =
     bindE (deref ref) (\<lambda>r.
     bindE (lift (getitem_axis 4 3 i r)) (\<lambda>rv.
     bindE (alloc rv) (\<lambda>rc.
     bindE (deref x) (\<lambda>xa.
     bindE (lift (getitem_axis 4 3 i xa)) (\<lambda>xv.
     bindE (alloc xv) (\<lambda>xc.
     bindE (call2 (compute_ssim M (Some 0)) rc xc) (\<lambda>ssim_i.
     ssim_loop M A ref x rest (py_iadd A ssim_total ssim_i))))))))"

definition compute_metrics ::
  "('a, 'm) metrics \<Rightarrow> 'm arith \<Rightarrow> addr \<Rightarrow> addr \<Rightarrow> ('a, 'm metrics_result) prog"
where
  "compute_metrics M A ref x =
     bindE (np_copy ref) (\<lambda>r1.
     bindE (np_copy x) (\<lambda>x1.
     bindE (call2 (compute_psnr M) r1 x1) (\<lambda>psnr_v.
     bindE (np_copy ref) (\<lambda>r2.
     bindE (np_copy x) (\<lambda>x2.
     bindE (call2 (compute_nrmse M) r2 x2) (\<lambda>nrmse_v.
     bindE (deref ref) (\<lambda>r.
     bindE (lift (shape_last r)) (\<lambda>n.
     bindE (ssim_loop M A ref x [0..<n] (PyInt 0)) (\<lambda>ssim_total.
     bindE (deref ref) (\<lambda>r'.
     bindE (lift (shape_last r')) (\<lambda>n'.
     bindE (lift (py_truediv A ssim_total (int n'))) (\<lambda>ssim_v.
     ret \<lparr> psnr = psnr_v, nrmse = nrmse_v, ssim = ssim_v \<rparr>))))))))))))"

subsection \<open>write_views_png\<close>

text \<open>
  \<^verbatim>\<open>image_out = image / (np.max(np.abs(image)) * 0.9) * 255\<close>, then the three middle
  slices, each converted by \<^verbatim>\<open>np.uint8\<close> and written.  \<open>imwrite\<close> records every array
  it is given.
\<close>

definition scale_image :: "'a numpy \<Rightarrow> 'a \<Rightarrow> 'a ndarray \<Rightarrow> 'a ndarray" where
  "scale_image N m img =
     map_array (\<lambda>v. np_mul N (np_div N v (np_mul N m (lit_0_9 N))) (lit_255 N)) img"

definition write_views_png :: "'a numpy \<Rightarrow> string \<Rightarrow> addr \<Rightarrow> ('a, unit) prog" where
  "write_views_png N filebase image_p =
     bindE (deref image_p) (\<lambda>img.
     bindE (lift (np_max N (map_array (np_abs N) img))) (\<lambda>m.
     let image_out = scale_image N m img in
     bindE (lift (shape_at image_out 0)) (\<lambda>n0.
     bindE (lift (getitem_axis 3 0 (n0 div 2) image_out)) (\<lambda>sag.
     bindE (imwrite (filebase @ ''_sag.png'') (map_array (uint8 N) sag)) (\<lambda>_.
     bindE (lift (shape_at image_out 1)) (\<lambda>n1.
     bindE (lift (getitem_axis 3 1 (n1 div 2) image_out)) (\<lambda>cor.
     bindE (imwrite (filebase @ ''_cor.png'') (map_array (uint8 N) cor)) (\<lambda>_.
     bindE (lift (shape_at image_out 2)) (\<lambda>n2.
     bindE (lift (getitem_axis 3 2 (n2 div 2) image_out)) (\<lambda>ax.
     imwrite (filebase @ ''_ax.png'') (map_array (uint8 N) ax)))))))))))"

subsection \<open>The script\<close>

text \<open>
  The command line after \<^verbatim>\<open>parse_args\<close>.  \<^verbatim>\<open>--device\<close>, \<^verbatim>\<open>--verbose\<close>, \<^verbatim>\<open>--plot\<close> and
  \<^verbatim>\<open>--logfile\<close> only steer logging, plotting and the GPU and are left out, as are the
  log lines themselves.
\<close>

record args =
  model_root_dir :: string
  kspace_truth :: string
  output_dir :: string
  sensemap :: "string option"
  batch_size :: int

text \<open>Lines 78 to 82: load the truth k-space and read its first four extents.\<close>

definition load_truth :: "'a extern \<Rightarrow> args \<Rightarrow> ('a, addr \<times> nat \<times> nat \<times> nat \<times> nat) prog" where
  "load_truth E ar =
     bindE (np_load E (kspace_truth ar)) (\<lambda>kt.
     bindE (deref kt) (\<lambda>t.
     bindE (lift (shape_at t 0)) (\<lambda>num_channels.
     bindE (lift (shape_at t 1)) (\<lambda>shape_z.
     bindE (lift (shape_at t 2)) (\<lambda>shape_y.
     bindE (lift (shape_at t 3)) (\<lambda>shape_x.
     ret (kt, num_channels, shape_z, shape_y, shape_x)))))))"

definition random_seed :: nat where "random_seed = 1000"
definition mask_accel :: nat where "mask_accel = 12"
definition mask_calib :: nat where "mask_calib = 20"

text \<open>Lines 91 to 103: the sampling mask, its picture, the input k-space and its file.\<close>

definition apply_mask :: "'a numpy \<Rightarrow> 'a extern \<Rightarrow> args \<Rightarrow> addr \<Rightarrow> nat \<Rightarrow> nat \<Rightarrow> ('a, addr) prog" where
  "apply_mask N E ar kt shape_z shape_y =
     bindE (lift (poisson E [shape_z, shape_y] mask_accel [mask_calib, mask_calib] random_seed)) (\<lambda>mask.
     bindE (imwrite (path_join (output_dir ar) ''mask.png'')
              (map_array (uint8 N) (map_array (\<lambda>v. np_mul N (np_abs N v) (lit_255 N)) mask))) (\<lambda>_.
     bindE (lift (np_reshape mask [1, shape_z, shape_y, 1])) (\<lambda>mask4.
     bindE (deref kt) (\<lambda>t.
     bindE (lift (np_multiply N mask4 t)) (\<lambda>prod.
     bindE (alloc (astype_complex64 N prod)) (\<lambda>kspace_input.
     bindE (np_save (path_join (output_dir ar) ''kspace_input.npy'') kspace_input) (\<lambda>_.
     ret kspace_input)))))))"

text \<open>
  Lines 105 to 118: the two branches (\<open>obtain_sensemap\<close>), then the maps axis
  (\<open>normalize_sensemap\<close>).  \<^verbatim>\<open>if args.sensemap:\<close> is Python truthiness: \<open>None\<close> and the
  empty string take the \<open>else\<close> branch.  \<^verbatim>\<open>np.expand_dims\<close> gives a view that is from then
  on the only reference held, so it is a new object here.
\<close>

definition estimate_sensemap :: "'a numpy \<Rightarrow> 'a extern \<Rightarrow> args \<Rightarrow> addr \<Rightarrow> ('a, addr) prog" where
  "estimate_sensemap N E ar kspace_input =
     bindE (call1 (jsense_recon E mask_calib) kspace_input) (\<lambda>est.
     bindE (alloc (astype_complex64 N est)) (\<lambda>sm.
     bindE (np_save (path_join (output_dir ar) ''sensemap.npy'') sm) (\<lambda>_.
     ret sm)))"

definition obtain_sensemap :: "'a numpy \<Rightarrow> 'a extern \<Rightarrow> args \<Rightarrow> addr \<Rightarrow> ('a, addr) prog" where
  "obtain_sensemap N E ar kspace_input =
     (case sensemap ar of
        None \<Rightarrow> estimate_sensemap N E ar kspace_input
      | Some path \<Rightarrow>
          if path \<noteq> [] then np_load E path else estimate_sensemap N E ar kspace_input)"

definition normalize_sensemap :: "addr \<Rightarrow> ('a, addr) prog" where
  "normalize_sensemap sm =
     bindE (deref sm) (\<lambda>s.
     if ndim s \<noteq> 5 then alloc (expand_dims0 s) else ret sm)"

definition acquire_sensemap :: "'a numpy \<Rightarrow> 'a extern \<Rightarrow> args \<Rightarrow> addr \<Rightarrow> ('a, addr) prog" where
  "acquire_sensemap N E ar kspace_input =
     bindE (obtain_sensemap N E ar kspace_input) normalize_sensemap"

text \<open>Lines 120 to 123 and 130 to 136: the truth and the input comparison.\<close>

definition truth_comparison :: "'a numpy \<Rightarrow> 'a extern \<Rightarrow> args \<Rightarrow> addr \<Rightarrow> ('a, addr) prog" where
  "truth_comparison N E ar kt =
     bindE (call1 (ifft3c E) kt) (\<lambda>img.
     bindE (alloc img) (\<lambda>image_truth.
     bindE (call1 (sumofsq E 0) image_truth) (\<lambda>sos.
     bindE (alloc sos) (\<lambda>image_truth_sos.
     bindE (write_views_png N (path_join (output_dir ar) ''truth'') image_truth_sos) (\<lambda>_.
     ret image_truth)))))"

definition input_comparison ::
  "'a numpy \<Rightarrow> 'a extern \<Rightarrow> ('a, 'm) metrics \<Rightarrow> 'm arith \<Rightarrow> args \<Rightarrow> addr \<Rightarrow> addr
     \<Rightarrow> ('a, 'm metrics_result) prog"
where
  "input_comparison N E M A ar image_truth kspace_input =
     bindE (call1 (ifft3c E) kspace_input) (\<lambda>img.
     bindE (alloc img) (\<lambda>image_input.
     bindE (compute_metrics M A image_truth image_input) (\<lambda>results.
     bindE (call1 (sumofsq E 0) image_input) (\<lambda>sos.
     bindE (alloc sos) (\<lambda>image_input_sos.
     bindE (write_views_png N (path_join (output_dir ar) ''input'') image_input_sos) (\<lambda>_.
     ret results))))))"

text \<open>
  Lines 147 to 168: one turn of the model loop, for one entry of the directory.
  \<open>run_inference\<close> is lines 148 to 155, the model's construction, its \<open>run\<close> on
  \<^verbatim>\<open>kspace_input.copy()\<close> and \<^verbatim>\<open>sensemap\<close>, and the conversion of its output;
  \<open>report_model\<close> is lines 158 to 168: the output is written (lines 158 to 160) and
  compared with the truth (\<open>compare_output\<close>, lines 162 to 168).
\<close>

definition run_inference ::
  "'a numpy \<Rightarrow> 'a extern \<Rightarrow> args \<Rightarrow> nat \<Rightarrow> nat \<Rightarrow> nat \<Rightarrow> addr \<Rightarrow> addr \<Rightarrow> string
     \<Rightarrow> ('a, addr) prog"
where
  "run_inference N E ar num_channels shape_z shape_y kspace_input sm model_basename =
     (let model_name = path_join (model_root_dir ar) model_basename in
      bindE (lift (deep_recon E model_name num_channels shape_z shape_y (batch_size ar))) (\<lambda>model_run.
      bindE (np_copy kspace_input) (\<lambda>kc.
      bindE (call2 model_run kc sm) (\<lambda>out.
      alloc (astype_complex64 N out)))))"

definition compare_output ::
  "'a numpy \<Rightarrow> 'a extern \<Rightarrow> ('a, 'm) metrics \<Rightarrow> 'm arith \<Rightarrow> args \<Rightarrow> addr \<Rightarrow> addr \<Rightarrow> string
     \<Rightarrow> ('a, 'm metrics_result) prog"
where
  "compare_output N E M A ar image_truth kspace_output model_basename =
     bindE (call1 (ifft3c E) kspace_output) (\<lambda>img.
     bindE (alloc img) (\<lambda>image_output.
     bindE (compute_metrics M A image_truth image_output) (\<lambda>results.
     bindE (call1 (sumofsq E 0) image_output) (\<lambda>sos.
     bindE (alloc sos) (\<lambda>image_output_sos.
     bindE (write_views_png N (path_join (output_dir ar) model_basename) image_output_sos) (\<lambda>_.
     ret results))))))"

definition report_model ::
  "'a numpy \<Rightarrow> 'a extern \<Rightarrow> ('a, 'm) metrics \<Rightarrow> 'm arith \<Rightarrow> args \<Rightarrow> addr \<Rightarrow> addr \<Rightarrow> string
     \<Rightarrow> ('a, 'm metrics_result) prog"
where
  "report_model N E M A ar image_truth kspace_output model_basename =
     bindE (np_save (path_join (output_dir ar) (''kspace_'' @ model_basename @ ''.npy''))
              kspace_output) (\<lambda>_.
     compare_output N E M A ar image_truth kspace_output model_basename)"

definition run_model ::
  "'a numpy \<Rightarrow> 'a extern \<Rightarrow> ('a, 'm) metrics \<Rightarrow> 'm arith \<Rightarrow> args \<Rightarrow> nat \<Rightarrow> nat \<Rightarrow> nat
     \<Rightarrow> addr \<Rightarrow> addr \<Rightarrow> addr \<Rightarrow> string \<Rightarrow> ('a, 'm metrics_result) prog"
where
  "run_model N E M A ar num_channels shape_z shape_y kspace_input sm image_truth model_basename =
     bindE (run_inference N E ar num_channels shape_z shape_y kspace_input sm model_basename)
       (\<lambda>kspace_output.
     report_model N E M A ar image_truth kspace_output model_basename)"

fun model_loop ::
  "'a numpy \<Rightarrow> 'a extern \<Rightarrow> ('a, 'm) metrics \<Rightarrow> 'm arith \<Rightarrow> args \<Rightarrow> nat \<Rightarrow> nat \<Rightarrow> nat
     \<Rightarrow> addr \<Rightarrow> addr \<Rightarrow> addr \<Rightarrow> string list \<Rightarrow> ('a, 'm metrics_result list) prog"
where
  "model_loop N E M A ar nc sz sy kspace_input sm image_truth [] = ret []"
| "model_loop N E M A ar nc sz sy kspace_input sm image_truth (model_basename # rest) =
     bindE (run_model N E M A ar nc sz sy kspace_input sm image_truth model_basename) (\<lambda>r.
     bindE (model_loop N E M A ar nc sz sy kspace_input sm image_truth rest) (\<lambda>rs.
     ret (r # rs)))"

text \<open>
  The whole run; \<open>model_list\<close> is what \<^verbatim>\<open>os.listdir(args.model_root_dir)\<close> returns.
  \<open>run_comparisons\<close> is lines 105 to 173, all that follows the writing of the input
  k-space.
\<close>

definition run_comparisons ::
  "'a numpy \<Rightarrow> 'a extern \<Rightarrow> ('a, 'm) metrics \<Rightarrow> 'm arith \<Rightarrow> args \<Rightarrow> addr \<Rightarrow> nat \<Rightarrow> nat \<Rightarrow> nat
     \<Rightarrow> addr \<Rightarrow> string list \<Rightarrow> ('a, 'm metrics_result list) prog"
where
  "run_comparisons N E M A ar kt num_channels shape_z shape_y kspace_input model_list =
     bindE (acquire_sensemap N E ar kspace_input) (\<lambda>sm.
     bindE (truth_comparison N E ar kt) (\<lambda>image_truth.
     bindE (input_comparison N E M A ar image_truth kspace_input) (\<lambda>r0.
     bindE (model_loop N E M A ar num_channels shape_z shape_y kspace_input sm image_truth
              model_list) (\<lambda>rs.
     ret (r0 # rs)))))"

definition main ::
  "'a numpy \<Rightarrow> 'a extern \<Rightarrow> ('a, 'm) metrics \<Rightarrow> 'm arith \<Rightarrow> args \<Rightarrow> string list
     \<Rightarrow> ('a, 'm metrics_result list) prog"
where
  "main N E M A ar model_list =
     bindE (load_truth E ar) (\<lambda>(kt, num_channels, shape_z, shape_y, shape_x).
     bindE (apply_mask N E ar kt shape_z shape_y) (\<lambda>kspace_input.
     run_comparisons N E M A ar kt num_channels shape_z shape_y kspace_input model_list))"

section \<open>What a statement leaves alone\<close>

text \<open>The first \<open>n\<close> objects hold what they held, no object disappeared, and no file
  was written.\<close>

definition frame :: "nat \<Rightarrow> 'a world \<Rightarrow> 'a world \<Rightarrow> bool" where
  "frame n w w' \<longleftrightarrow>
     take n (heap w') = take n (heap w) \<and> length (heap w) \<le> length (heap w') \<and>
     files w' = files w"

text \<open>
  A statement run from a world that satisfies \<open>P\<close> ends, when it returns \<open>r\<close>, in a world
  that satisfies \<open>Q r\<close>, and when it raises, in one that satisfies \<open>E\<close>.
\<close>

definition hoare ::
  "('a world \<Rightarrow> bool) \<Rightarrow> ('a, 'r) prog \<Rightarrow> ('r \<Rightarrow> 'a world \<Rightarrow> bool) \<Rightarrow> ('a world \<Rightarrow> bool) \<Rightarrow> bool"
where
  "hoare P m Q E \<longleftrightarrow>
     (\<forall>w. P w \<longrightarrow> (case m w of (Inl e, w') \<Rightarrow> E w' | (Inr r, w') \<Rightarrow> Q r w'))"

text \<open>
  Against the objects \<open>h0\<close> at the start: every one of them outside \<open>T\<close> holds what it
  held, and the addresses in \<open>L\<close> are objects made since.
\<close>

definition kept :: "'a ndarray list \<Rightarrow> addr set \<Rightarrow> addr list \<Rightarrow> 'a world \<Rightarrow> bool" where
  "kept h0 T L w \<longleftrightarrow>
     length h0 \<le> length (heap w) \<and>
     (\<forall>p<length h0. p \<notin> T \<longrightarrow> heap w ! p = h0 ! p) \<and>
     (\<forall>r\<in>set L. length h0 \<le> r \<and> r < length (heap w))"

text \<open>
  A selection \<open>sel\<close> of writes, and a statement that makes none of them: the selected
  writes after it are those before it.  Two selections: the writes to one path, and
  the writes of arrays.
\<close>

definition silent :: "(string \<times> 'a written \<Rightarrow> bool) \<Rightarrow> ('a, 'r) prog \<Rightarrow> bool" where
  "silent sel m \<longleftrightarrow> (\<forall>w. filter sel (files (snd (m w))) = filter sel (files w))"

definition at_path :: "string \<Rightarrow> string \<times> 'a written \<Rightarrow> bool" where
  "at_path path f \<longleftrightarrow> fst f = path"

definition is_npy :: "string \<times> 'a written \<Rightarrow> bool" where
  "is_npy f = (case snd f of Npy a \<Rightarrow> True | Png img \<Rightarrow> False)"

text \<open>A routine that leaves its second argument as it was.\<close>

definition second_unchanged :: "('a, 'r) ext2 \<Rightarrow> bool" where
  "second_unchanged f \<longleftrightarrow> (\<forall>a b. snd (snd (f a b)) = b)"

text \<open>Every model that \<^verbatim>\<open>DeepRecon\<close> constructs has a \<open>run\<close> that leaves the sensitivity
  map it is given as it was.\<close>

definition models_keep_sensemap :: "'a extern \<Rightarrow> bool" where
  "models_keep_sensemap E \<longleftrightarrow>
     (\<forall>name nc sz sy bs run. deep_recon E name nc sz sy bs = Inr run \<longrightarrow> second_unchanged run)"

section \<open>The specification's words\<close>

text \<open>
  The slice \<open>a[..., i]\<close> at index \<open>i\<close> of the last axis: its element at row-major
  position \<open>j\<close> is the element of \<open>a\<close> at position \<open>j * n + i\<close>, \<open>n\<close> the last extent.
\<close>

definition last_axis_slice :: "'a ndarray \<Rightarrow> nat \<Rightarrow> 'a ndarray" where
  "last_axis_slice a i =
     \<lparr> shape = butlast (shape a),
       data = map (\<lambda>j. data a ! (j * last (shape a) + i)) [0..<prod_list (butlast (shape a))] \<rparr>"

text \<open>The arithmetic mean of a list of scalars in the arithmetic \<open>A\<close>: their sum, added
  up from 0 in the order of the list, divided by their number.\<close>

definition arith_mean :: "'m arith \<Rightarrow> 'm list \<Rightarrow> 'm" where
  "arith_mean A vs =
     f_div A (foldl (f_add A) (f_of_int A 0) vs) (f_of_int A (int (length vs)))"

text \<open>\<open>max(|image|)\<close> of a non-empty array, and the pixel that \<open>write_views_png\<close> is to
  make of an element \<open>v\<close>: \<open>v\<close> divided by 0.9 times that maximum, times 255, converted to
  unsigned 8-bit.\<close>

definition max_abs :: "'a numpy \<Rightarrow> 'a ndarray \<Rightarrow> 'a" where
  "max_abs N img = foldl (np_maximum N) (np_abs N (hd (data img))) (map (np_abs N) (tl (data img)))"

definition pixel :: "'a numpy \<Rightarrow> 'a ndarray \<Rightarrow> 'a \<Rightarrow> 8 word" where
  "pixel N img v =
     uint8 N (np_mul N (np_div N v (np_mul N (max_abs N img) (lit_0_9 N))) (lit_255 N))"

text \<open>The contents written to a path, in the order of the writes.\<close>

definition writes_to :: "string \<Rightarrow> 'a world \<Rightarrow> 'a written list" where
  "writes_to path w = map snd (filter (at_path path) (files w))"

text \<open>
  What the model loop is to do with the two arrays its turns share, said without the
  heap and without the comparisons: every model's \<open>run\<close> is applied to the same input
  k-space \<open>K\<close> and to the sensitivity map that its predecessor left.  The result is the
  list of output files, one \<^verbatim>\<open>kspace_<name>.npy\<close> per model holding the converted output
  of its \<open>run\<close>, and the sensitivity map left after the last model.  The loop of the
  script is compared with it below.
\<close>

fun loop_trace ::
  "'a numpy \<Rightarrow> 'a extern \<Rightarrow> args \<Rightarrow> nat \<Rightarrow> nat \<Rightarrow> nat \<Rightarrow> 'a ndarray \<Rightarrow> 'a ndarray \<Rightarrow> string list
     \<Rightarrow> (string \<times> 'a written) list \<times> 'a ndarray"
where
  "loop_trace N E ar nc sz sy K s [] = ([], s)"
| "loop_trace N E ar nc sz sy K s (name # rest) =
     (case deep_recon E (path_join (model_root_dir ar) name) nc sz sy (batch_size ar) of
        Inl e \<Rightarrow> ([], s)
      | Inr run \<Rightarrow>
          (case run K s of
             (Inl e, k', s') \<Rightarrow> ([], s')
           | (Inr out, k', s') \<Rightarrow>
               (case loop_trace N E ar nc sz sy K s' rest of
                  (ws, sf) \<Rightarrow>
                    ((path_join (output_dir ar) (''kspace_'' @ name @ ''.npy''),
                      Npy (astype_complex64 N out)) # ws, sf))))"

section \<open>Concrete inputs\<close>

text \<open>
  Inputs on which the statements below are evaluated.  Scalars are real floating-point
  numbers with their special values.  A finite one is an exact rational and a zero has
  no sign: the rounding of double precision is not modelled, and the arrays of the
  examples hold integers that double precision represents exactly.  \<open>fl_single\<close> is the
  conversion to single precision: rounding to the nearest number with a significand
  of 24 bits, ties to even, with its subnormal and overflow ranges.  The conversion of
  a non-finite scalar to unsigned 8-bit, which depends on the platform, gives 0.
\<close>

datatype npfloat = Fin rat | PosInf | NegInf | NaN

fun sign_of :: "npfloat \<Rightarrow> rat" where
  "sign_of (Fin a) = sgn a"
| "sign_of PosInf = 1"
| "sign_of NegInf = - 1"
| "sign_of NaN = 0"

definition inf_of_sign :: "rat \<Rightarrow> npfloat" where
  "inf_of_sign s = (if s > 0 then PosInf else if s < 0 then NegInf else NaN)"

fun fl_mul :: "npfloat \<Rightarrow> npfloat \<Rightarrow> npfloat" where
  "fl_mul NaN y = NaN"
| "fl_mul x NaN = NaN"
| "fl_mul (Fin a) (Fin b) = Fin (a * b)"
| "fl_mul x y = inf_of_sign (sign_of x * sign_of y)"

fun fl_div :: "npfloat \<Rightarrow> npfloat \<Rightarrow> npfloat" where
  "fl_div NaN y = NaN"
| "fl_div x NaN = NaN"
| "fl_div (Fin a) (Fin b) = (if b = 0 then inf_of_sign (sgn a) else Fin (a / b))"
| "fl_div (Fin a) y = Fin 0"
| "fl_div x (Fin b) = inf_of_sign (sign_of x * (if b < 0 then - 1 else 1))"
| "fl_div x y = NaN"

fun fl_abs :: "npfloat \<Rightarrow> npfloat" where
  "fl_abs (Fin a) = Fin \<bar>a\<bar>"
| "fl_abs NaN = NaN"
| "fl_abs x = PosInf"

fun fl_max :: "npfloat \<Rightarrow> npfloat \<Rightarrow> npfloat" where
  "fl_max NaN y = NaN"
| "fl_max x NaN = NaN"
| "fl_max PosInf y = PosInf"
| "fl_max x PosInf = PosInf"
| "fl_max NegInf y = y"
| "fl_max x NegInf = x"
| "fl_max (Fin a) (Fin b) = Fin (max a b)"

fun fl_uint8 :: "npfloat \<Rightarrow> 8 word" where
  "fl_uint8 (Fin a) = word_of_int (if a \<ge> 0 then \<lfloor>a\<rfloor> else \<lceil>a\<rceil>)"
| "fl_uint8 x = 0"

definition pow2 :: "int \<Rightarrow> rat" where
  "pow2 e = (if 0 \<le> e then 2 ^ nat e else 1 / 2 ^ nat (- e))"

text \<open>The exponent \<open>e\<close> with \<open>2^e \<le> |a| < 2^(e+1)\<close>, for \<open>a\<close> other than 0.\<close>

definition ilog2 :: "rat \<Rightarrow> int" where
  "ilog2 a =
     (case quotient_of \<bar>a\<bar> of
        (p, q) \<Rightarrow> let d = bitlen p - bitlen q in if pow2 d \<le> \<bar>a\<bar> then d else d - 1)"

definition round_even :: "rat \<Rightarrow> int" where
  "round_even m =
     (let r = \<lfloor>m\<rfloor>; f = m - of_int r
      in if f < 1 / 2 then r else if 1 / 2 < f then r + 1 else if even r then r else r + 1)"

definition fl_single :: "npfloat \<Rightarrow> npfloat" where
  "fl_single v =
     (case v of
        Fin a \<Rightarrow>
          if a = 0 then Fin 0
          else
            let s = max (ilog2 a - 23) (- 149);
                r = of_int (round_even (\<bar>a\<bar> / pow2 s)) * pow2 s
            in if pow2 128 \<le> r then inf_of_sign (sgn a) else Fin (sgn a * r)
      | _ \<Rightarrow> v)"

definition float_numpy :: "npfloat numpy" where
  "float_numpy = \<lparr> np_mul = fl_mul, np_div = fl_div, np_abs = fl_abs, np_maximum = fl_max,
                   complex64 = fl_single, uint8 = fl_uint8,
                   lit_0_9 = Fin (9 / 10), lit_255 = Fin 255 \<rparr>"

definition rat_arith :: "rat arith" where
  "rat_arith = \<lparr> f_add = (\<lambda>a b. a + b), f_div = (\<lambda>a b. a / b), f_of_int = of_int,
                 f_div_zero = (\<lambda>a. Inl ZeroDivisionError) \<rparr>"

text \<open>Metric routines that overwrite both arrays they are given.  Their values are
  made up: \<open>compute_ssim\<close> gives 1 on equal arrays and 1/2 otherwise.\<close>

definition scribble :: "npfloat ndarray \<Rightarrow> npfloat ndarray" where
  "scribble a = map_array (\<lambda>v. NaN) a"

definition scribbling_metrics :: "(npfloat, rat) metrics" where
  "scribbling_metrics =
     \<lparr> compute_psnr = (\<lambda>a b. (Inr 40, scribble a, scribble b)),
       compute_nrmse = (\<lambda>a b. (Inr (1 / 10), scribble a, scribble b)),
       compute_ssim = (\<lambda>sos_axis a b.
          (Inr (if data a = data b then 1 else 1 / 2), scribble a, scribble b)) \<rparr>"

definition ref_array :: "npfloat ndarray" where
  "ref_array = \<lparr> shape = [1, 1, 2, 2], data = [Fin 1, Fin 2, Fin 3, Fin 4] \<rparr>"

definition cand_array :: "npfloat ndarray" where
  "cand_array = \<lparr> shape = [1, 1, 2, 2], data = [Fin 1, Fin 5, Fin 3, Fin 6] \<rparr>"

definition metrics_world :: "npfloat world" where
  "metrics_world = \<lparr> heap = [ref_array, cand_array], files = [] \<rparr>"

definition empty_last :: "npfloat ndarray" where
  "empty_last = \<lparr> shape = [1, 1, 2, 0], data = [] \<rparr>"

definition empty_world :: "npfloat world" where
  "empty_world = \<lparr> heap = [empty_last, empty_last], files = [] \<rparr>"

definition volume :: "npfloat ndarray" where
  "volume = \<lparr> shape = [2, 2, 2],
              data = [Fin 1, Fin 2, Fin 3, Fin 4, Fin 5, Fin 6, Fin 7, Fin 8] \<rparr>"

definition volume_world :: "npfloat world" where
  "volume_world = \<lparr> heap = [volume], files = [] \<rparr>"

definition empty_volume :: "npfloat ndarray" where
  "empty_volume = \<lparr> shape = [0, 2, 2], data = [] \<rparr>"

definition zero_volume :: "npfloat ndarray" where
  "zero_volume = \<lparr> shape = [2, 2, 2], data = replicate (2 * 2 * 2) (Fin 0) \<rparr>"

definition zero_world :: "npfloat world" where
  "zero_world = \<lparr> heap = [zero_volume], files = [] \<rparr>"

text \<open>
  A run: a truth k-space of shape (1, 2, 2, 1) with two elements that single
  precision does not represent, a mask that keeps every other sample, a stored
  sensitivity map, an estimator that multiplies by 3, transforms that return what they
  get, and models whose \<open>run\<close> scales the k-space by the first element of the
  sensitivity map it receives, overwrites the k-space it was given and doubles the
  sensitivity map in place.
\<close>

definition truth :: "npfloat ndarray" where
  "truth = \<lparr> shape = [1, 2, 2, 1], data = [Fin 16777217, Fin 2, Fin 33554435, Fin 4] \<rparr>"

definition stored_map :: "npfloat ndarray" where
  "stored_map = \<lparr> shape = [1, 1, 2, 2, 1], data = [Fin 3, Fin 3, Fin 3, Fin 16777217] \<rparr>"

definition example_run :: "(npfloat, npfloat ndarray) ext2" where
  "example_run k s =
     (Inr (map_array (\<lambda>v. fl_mul v (hd (data s))) k), scribble k,
      map_array (\<lambda>v. fl_mul v (Fin 2)) s)"

definition example_extern :: "npfloat extern" where
  "example_extern =
     \<lparr> disk = (\<lambda>path. if path = ''truth.npy'' then Some truth
                       else if path = ''maps.npy'' then Some stored_map else None),
       poisson = (\<lambda>shp accel calib seed.
          Inr \<lparr> shape = shp,
                data = map (\<lambda>j. if even j then Fin 1 else Fin 0) [0..<prod_list shp] \<rparr>),
       jsense_recon = (\<lambda>width k. (Inr (map_array (\<lambda>v. fl_mul v (Fin 3)) k), k)),
       ifft3c = (\<lambda>a. (Inr a, a)),
       sumofsq = (\<lambda>axis a.
          (Inr \<lparr> shape = tl (shape a),
                 data = map fl_abs (take (prod_list (tl (shape a))) (data a)) \<rparr>, a)),
       deep_recon = (\<lambda>name nc sz sy bs. Inr example_run) \<rparr>"

text \<open>The same collaborators with models whose \<open>run\<close> leaves the sensitivity map it
  receives as it was.\<close>

definition quiet_run :: "(npfloat, npfloat ndarray) ext2" where
  "quiet_run k s = (Inr (map_array (\<lambda>v. fl_mul v (hd (data s))) k), scribble k, s)"

definition quiet_extern :: "npfloat extern" where
  "quiet_extern = example_extern \<lparr> deep_recon := (\<lambda>name nc sz sy bs. Inr quiet_run) \<rparr>"

definition example_args :: args where
  "example_args = \<lparr> model_root_dir = ''models'', kspace_truth = ''truth.npy'',
                    output_dir = ''out'', sensemap = Some ''maps.npy'', batch_size = 1 \<rparr>"

definition start_world :: "npfloat world" where
  "start_world = \<lparr> heap = [], files = [] \<rparr>"

definition truth_world :: "npfloat world" where
  "truth_world = \<lparr> heap = [truth], files = [] \<rparr>"

text \<open>The input k-space of that run, and the objects at the start of its model loop:
  the truth image (the transforms of the example return what they get), the input
  k-space and the stored sensitivity map.\<close>

definition input_array :: "npfloat ndarray" where
  "input_array = \<lparr> shape = [1, 2, 2, 1], data = [Fin 16777216, Fin 0, Fin 33554436, Fin 0] \<rparr>"

definition loop_world :: "npfloat world" where
  "loop_world = \<lparr> heap = [truth, input_array, stored_map], files = [] \<rparr>"

definition six_axes :: "int ndarray" where
  "six_axes = \<lparr> shape = [1, 1, 1, 1, 1, 1], data = [7] \<rparr>"

definition four_axes :: "int ndarray" where
  "four_axes = \<lparr> shape = [8, 64, 64, 64], data = replicate (8 * 64 * 64 * 64) 0 \<rparr>"

section \<open>Properties\<close>

subsection \<open>Sequencing\<close>

lemma bindE_ret [simp]: "bindE (ret r) f w = f r w"
  by (simp add: bindE_def ret_def)

lemma bindE_lift_Inr [simp]: "bindE (lift (Inr r)) f w = f r w"
  by (simp add: bindE_def lift_def)

lemma bindE_lift_Inl [simp]: "bindE (lift (Inl e)) f w = (Inl e, w)"
  by (simp add: bindE_def lift_def)

lemma bindE_raise [simp]: "bindE (raise e) f w = (Inl e, w)"
  by (simp add: bindE_def raise_def)

lemma bindE_deref [simp]: "bindE (deref p) f w = f (heap w ! p) w"
  by (simp add: bindE_def deref_def)

lemma bindE_alloc [simp]:
  "bindE (alloc v) f w = f (length (heap w)) (w\<lparr>heap := heap w @ [v]\<rparr>)"
  by (simp add: bindE_def alloc_def)

lemma bindE_np_copy [simp]:
  "bindE (np_copy p) f w = f (length (heap w)) (w\<lparr>heap := heap w @ [heap w ! p]\<rparr>)"
  by (simp add: bindE_def alloc_def np_copy_def)

lemma bindE_np_save [simp]:
  "bindE (np_save path p) f w = f () (w\<lparr>files := files w @ [(path, Npy (heap w ! p))]\<rparr>)"
  by (simp add: bindE_def np_save_def)

lemma bindE_imwrite [simp]:
  "bindE (imwrite path img) f w = f () (w\<lparr>files := files w @ [(path, Png img)]\<rparr>)"
  by (simp add: bindE_def imwrite_def)

lemma bindE_call1:
  "bindE (call1 f p) g w =
     (case f (heap w ! p) of
        (Inl e, v) \<Rightarrow> (Inl e, w\<lparr>heap := (heap w)[p := v]\<rparr>)
      | (Inr r, v) \<Rightarrow> g r (w\<lparr>heap := (heap w)[p := v]\<rparr>))"
  by (simp add: bindE_def call1_def split: prod.splits sum.splits)

subsection \<open>Positions in an array\<close>

lemma concat_singletons:
  "(\<And>k. k \<in> set ks \<Longrightarrow> g k = [f k]) \<Longrightarrow> concat (map g ks) = map f ks"
  by (induction ks) auto

lemma take1_drop: "k < length d \<Longrightarrow> take (Suc 0) (drop k d) = [d ! k]"
  by (simp add: take_Suc_conv_app_nth)

lemma getitem_last_axis4:
  assumes "wf_array a" "shape a = [C, Z, Y, N]" "i < N"
  shows "getitem_axis 4 3 i a = Inr (last_axis_slice a i)"
proof -
  have len: "length (data a) = C * Z * Y * N"
    using assms by (simp add: wf_array_def mult.assoc)
  have "concat (map (\<lambda>out. take (Suc 0) (drop (out * N + i) (data a))) [0..<C * Z * Y])
        = map (\<lambda>j. data a ! (j * N + i)) [0..<C * Z * Y]"
  proof (rule concat_singletons)
    fix k assume "k \<in> set [0..<C * Z * Y]"
    then have "k < C * Z * Y" by simp
    then have "Suc k \<le> C * Z * Y" by simp
    then have "Suc k * N \<le> C * Z * Y * N" by (rule mult_le_mono1)
    then have "k * N + i < length (data a)" using \<open>i < N\<close> len by simp
    then show "take (Suc 0) (drop (k * N + i) (data a)) = [data a ! (k * N + i)]"
      by (rule take1_drop)
  qed
  then show ?thesis
    using assms by (simp add: getitem_axis_def last_axis_slice_def mult.assoc)
qed

lemma last_axis_slice_at:
  assumes "shape a = [C, Z, Y, N]" "c < C" "z < Z" "y < Y"
  shows "elem (last_axis_slice a i) [c, z, y] = elem a [c, z, y, i]"
proof -
  have "z * Y + y < Z * Y"
  proof -
    have "z * Y + y < Suc z * Y" using \<open>y < Y\<close> by simp
    also have "\<dots> \<le> Z * Y" using \<open>z < Z\<close> by (intro mult_le_mono1) simp
    finally show ?thesis .
  qed
  then have "c * (Z * Y) + (z * Y + y) < Suc c * (Z * Y)" by simp
  also have "\<dots> \<le> C * (Z * Y)" using \<open>c < C\<close> by (intro mult_le_mono1) simp
  finally have "c * (Z * Y) + (z * Y + y) < C * Z * Y" by (simp add: mult.assoc)
  then show ?thesis
    using assms by (simp add: elem_def last_axis_slice_def algebra_simps)
qed


lemma length_concat_chunks:
  "(\<And>k. k < m \<Longrightarrow> length (g k) = L) \<Longrightarrow> length (concat (map g [0..<m])) = m * L"
  by (induction m) simp_all

lemma concat_chunks_nth:
  assumes "\<And>k. k < m \<Longrightarrow> length (g k) = L" and "out < m" and "r < L"
  shows "concat (map g [0..<m]) ! (out * L + r) = g out ! r"
  using assms
proof (induction m)
  case 0
  then show ?case by simp
next
  case (Suc m)
  have len: "length (concat (map g [0..<m])) = m * L"
    using Suc.prems(1) by (intro length_concat_chunks) simp
  show ?case
  proof (cases "out < m")
    case True
    then have "Suc out \<le> m" by simp
    then have "Suc out * L \<le> m * L" by (rule mult_le_mono1)
    then have "out * L + r < m * L" using \<open>r < L\<close> by simp
    moreover have "concat (map g [0..<m]) ! (out * L + r) = g out ! r"
      using True Suc.prems by (intro Suc.IH) simp_all
    ultimately show ?thesis by (simp add: nth_append len)
  next
    case False
    then have "out = m" using Suc.prems(2) by simp
    then show ?thesis by (simp add: nth_append len)
  qed
qed

lemma prod_list_split:
  "k < length s \<Longrightarrow> prod_list s = prod_list (take k s) * (s ! k) * prod_list (drop (Suc k) s)"
proof -
  assume "k < length s"
  then have "s = take k s @ s ! k # drop (Suc k) s" by (rule id_take_nth_drop)
  then have "prod_list s = prod_list (take k s @ s ! k # drop (Suc k) s)" by simp
  then show ?thesis by (simp add: mult.assoc)
qed

lemma chunk_in_range:
  assumes "out < outer" "i < n" "length d = outer * n * inner"
  shows "(out * n + i) * inner + inner \<le> length d"
proof -
  have "out * n + i < Suc out * n" using assms(2) by simp
  also have "\<dots> \<le> outer * n" using assms(1) by (intro mult_le_mono1) simp
  finally have "Suc (out * n + i) \<le> outer * n" by simp
  then have "Suc (out * n + i) * inner \<le> outer * n * inner" by (rule mult_le_mono1)
  then show ?thesis using assms(3) by simp
qed

lemma getitem_axis_data:
  assumes "wf_array a" and "nidx \<le> length (shape a)" and "k < length (shape a)"
    and "i < shape a ! k"
  defines "outer \<equiv> prod_list (take k (shape a))"
    and "n \<equiv> shape a ! k"
    and "inner \<equiv> prod_list (drop (Suc k) (shape a))"
  shows "\<exists>g. getitem_axis nidx k i a = Inr g \<and>
             shape g = take k (shape a) @ drop (Suc k) (shape a) \<and>
             length (data g) = outer * inner \<and>
             (\<forall>out<outer. \<forall>r<inner.
                data g ! (out * inner + r) = data a ! ((out * n + i) * inner + r))"
proof -
  let ?chunk = "\<lambda>out. take inner (drop ((out * n + i) * inner) (data a))"
  let ?g = "\<lparr> shape = take k (shape a) @ drop (Suc k) (shape a),
              data = concat (map ?chunk [0..<outer]) \<rparr>"
  have len: "length (data a) = outer * n * inner"
    using assms(1,3) unfolding wf_array_def outer_def n_def inner_def
    by (simp add: prod_list_split [of k])
  have chunk_len: "length (?chunk out) = inner" if "out < outer" for out
    using chunk_in_range [OF that, of i n "data a" inner] assms(4) len
    by (simp add: n_def)
  have get: "getitem_axis nidx k i a = Inr ?g"
    using assms(2,3,4) by (simp add: getitem_axis_def outer_def n_def inner_def Let_def)
  have nth: "data ?g ! (out * inner + r) = data a ! ((out * n + i) * inner + r)"
    if "out < outer" "r < inner" for out r
  proof -
    have "data ?g ! (out * inner + r) = ?chunk out ! r"
      using chunk_len that by (simp add: concat_chunks_nth)
    also have "\<dots> = data a ! ((out * n + i) * inner + r)"
    proof -
      have "(out * n + i) * inner + inner \<le> length (data a)"
        using chunk_in_range [OF that(1), of i n "data a" inner] assms(4) len
        by (simp add: n_def)
      then have "(out * n + i) * inner \<le> length (data a)" by simp
      then show ?thesis using that(2) by (simp add: nth_drop)
    qed
    finally show ?thesis .
  qed
  have "length (data ?g) = outer * inner"
    using chunk_len by (simp add: length_concat_chunks)
  with get nth show ?thesis by (intro exI [of _ ?g]) simp
qed

lemma idx2: "j < b \<Longrightarrow> k < c \<Longrightarrow> j * c + k < b * (c::nat)"
proof -
  assume "j < b" "k < c"
  then have "j * c + k < Suc j * c" by simp
  also have "\<dots> \<le> b * c" using \<open>j < b\<close> by (intro mult_le_mono1) simp
  finally show ?thesis .
qed

lemma idx3: "i < a \<Longrightarrow> j < b \<Longrightarrow> k < c \<Longrightarrow> i * (b * c) + (j * c + k) < a * (b * (c::nat))"
  using idx2 [of i a "j * c + k" "b * c"] idx2 [of j b k c] by simp

lemma np_max_abs:
  "data img \<noteq> [] \<Longrightarrow> np_max N (map_array (np_abs N) img) = Inr (max_abs N img)"
  by (cases "data img") (simp_all add: np_max_def map_array_def max_abs_def)


lemma upt2: "[0..<2] = [0, Suc 0]"
  by (simp add: upt_rec)

lemma getitem_axis_set:
  "getitem_axis nidx k i a = Inr g \<Longrightarrow> set (data g) \<subseteq> set (data a)"
  by (auto simp: getitem_axis_def Let_def split: if_splits dest!: in_set_takeD in_set_dropD)

lemma all_same_replicate: "set xs \<subseteq> {v} \<Longrightarrow> xs = replicate (length xs) v"
  by (induction xs) auto

subsection \<open>What the metrics leave alone\<close>

lemma bindE_call2:
  "bindE (call2 f p q) g w =
     (case f (heap w ! p) (heap w ! q) of
        (Inl e, v, u) \<Rightarrow> (Inl e, w\<lparr>heap := (heap w)[p := v, q := u]\<rparr>)
      | (Inr r, v, u) \<Rightarrow> g r (w\<lparr>heap := (heap w)[p := v, q := u]\<rparr>))"
  by (simp add: bindE_def call2_def split: prod.splits sum.splits)

lemma frame_refl [simp]: "frame n w w"
  by (simp add: frame_def)

lemma frame_trans: "frame n w w1 \<Longrightarrow> frame n w1 w2 \<Longrightarrow> frame n w w2"
  by (auto simp: frame_def)

lemma frame_alloc2_update:
  "n \<le> length (heap w) \<Longrightarrow>
   frame n w (w\<lparr>heap := (heap w @ [a, b])[length (heap w) := v, Suc (length (heap w)) := u]\<rparr>)"
  by (simp add: frame_def)

lemma ssim_loop_frame:
  "n \<le> length (heap w) \<Longrightarrow> ref < length (heap w) \<Longrightarrow> x < length (heap w) \<Longrightarrow>
   frame n w (snd (ssim_loop M A ref x idxs tot w))"
proof (induction idxs arbitrary: tot w)
  case Nil
  then show ?case by (simp add: ret_def)
next
  case (Cons i rest)
  show ?case
  proof (cases "getitem_axis 4 3 i (heap w ! ref)")
    case (Inl e)
    then show ?thesis by simp
  next
    case rv: (Inr rv)
    show ?thesis
    proof (cases "getitem_axis 4 3 i (heap w ! x)")
      case (Inl e)
      then show ?thesis using rv Cons.prems
        by (simp add: nth_append frame_def)
    next
      case xv: (Inr xv)
      let ?w1 = "\<lambda>v u. w\<lparr>heap := (heap w @ [rv, xv])[length (heap w) := v, Suc (length (heap w)) := u]\<rparr>"
      obtain r v u where f: "compute_ssim M (Some 0) rv xv = (r, v, u)"
        by (cases "compute_ssim M (Some 0) rv xv") auto
      have fr: "frame n w (?w1 v u)"
        using Cons.prems(1) by (rule frame_alloc2_update)
      have len: "n \<le> length (heap (?w1 v u))" using Cons.prems by simp
      show ?thesis
      proof (cases r)
        case (Inl e)
        then show ?thesis using rv xv f fr Cons.prems
          by (simp add: nth_append bindE_call2 )
      next
        case (Inr s)
        have "frame n (?w1 v u) (snd (ssim_loop M A ref x rest (py_iadd A tot s) (?w1 v u)))"
          using len Cons.prems by (intro Cons.IH) simp_all
        with fr have "frame n w (snd (ssim_loop M A ref x rest (py_iadd A tot s) (?w1 v u)))"
          by (rule frame_trans)
        then show ?thesis using rv xv f Inr Cons.prems
          by (simp add: nth_append bindE_call2)
      qed
    qed
  qed
qed


lemma compute_metrics_frame:
  assumes "ref < length (heap w)" "x < length (heap w)"
  shows "frame (length (heap w)) w (snd (compute_metrics M A ref x w))"
proof -
  let ?h = "heap w" and ?R = "heap w ! ref" and ?X = "heap w ! x"
  obtain r1 v1 u1 where p: "compute_psnr M ?R ?X = (r1, v1, u1)"
    by (cases "compute_psnr M ?R ?X") auto
  let ?w1 = "w\<lparr>heap := (?h @ [?R, ?X])[length ?h := v1, Suc (length ?h) := u1]\<rparr>"
  have f1: "frame (length ?h) w ?w1" by (simp add: frame_def)
  obtain r2 v2 u2 where q: "compute_nrmse M ?R ?X = (r2, v2, u2)"
    by (cases "compute_nrmse M ?R ?X") auto
  let ?h1 = "heap ?w1"
  let ?w2 = "?w1\<lparr>heap := (?h1 @ [?R, ?X])[length ?h1 := v2, Suc (length ?h1) := u2]\<rparr>"
  have f2: "frame (length ?h) w ?w2" by (simp add: frame_def)
  have R1: "?h1 ! ref = ?R" "?h1 ! x = ?X" using assms by (simp_all add: nth_append)
  have R2: "heap ?w2 ! ref = ?R" using assms by (simp add: nth_append)
  show ?thesis
  proof (cases r1)
    case (Inl e)
    then show ?thesis using p f1 assms
      by (simp add: compute_metrics_def bindE_call2 nth_append)
  next
    case a: (Inr pv)
    show ?thesis
    proof (cases r2)
      case (Inl e)
      then show ?thesis using p q a f2 assms
        by (simp add: compute_metrics_def bindE_call2 nth_append)
    next
      case b: (Inr nv)
      have eq: "compute_metrics M A ref x w =
         bindE (lift (shape_last ?R)) (\<lambda>n.
         bindE (ssim_loop M A ref x [0..<n] (PyInt 0)) (\<lambda>ssim_total.
         bindE (deref ref) (\<lambda>r'.
         bindE (lift (shape_last r')) (\<lambda>n'.
         bindE (lift (py_truediv A ssim_total (int n'))) (\<lambda>ssim_v.
         ret \<lparr> psnr = pv, nrmse = nv, ssim = ssim_v \<rparr>))))) ?w2"
        using p q a b assms
        by (simp add: compute_metrics_def bindE_call2 nth_append)
      show ?thesis
      proof (cases "shape_last ?R")
        case (Inl e)
        then show ?thesis using eq f2 by simp
      next
        case (Inr n)
        have "frame (length ?h) ?w2 (snd (ssim_loop M A ref x [0..<n] (PyInt 0) ?w2))"
          using assms by (intro ssim_loop_frame) simp_all
        with f2 have "frame (length ?h) w (snd (ssim_loop M A ref x [0..<n] (PyInt 0) ?w2))"
          by (rule frame_trans)
        then have "frame (length ?h) w
          (snd (bindE (ssim_loop M A ref x [0..<n] (PyInt 0)) (\<lambda>ssim_total.
         bindE (deref ref) (\<lambda>r'.
         bindE (lift (shape_last r')) (\<lambda>n'.
         bindE (lift (py_truediv A ssim_total (int n'))) (\<lambda>ssim_v.
         ret \<lparr> psnr = pv, nrmse = nv, ssim = ssim_v \<rparr>)))) ?w2))"
          by (cases "ssim_loop M A ref x [0..<n] (PyInt 0) ?w2")
             (auto simp: bindE_def lift_def deref_def ret_def split: sum.splits)
        then show ?thesis using eq Inr by simp
      qed
    qed
  qed
qed

lemma frame_nth: "frame n w w' \<Longrightarrow> p < n \<Longrightarrow> heap w' ! p = heap w ! p"
proof -
  assume "frame n w w'" and "p < n"
  then have "take n (heap w') ! p = take n (heap w) ! p"
    by (simp add: frame_def)
  with \<open>p < n\<close> show ?thesis by simp
qed

lemma update_fresh2:
  "(h @ [a, b])[length h := v, Suc (length h) := u] = h @ [v, u]"
  by (simp add: list_update_append)

lemma call_on_copies:
  assumes "p < length (heap w)" "q < length (heap w)"
  shows "bindE (np_copy p) (\<lambda>a. bindE (np_copy q) (\<lambda>b. bindE (call2 f a b) g)) w =
         (case f (heap w ! p) (heap w ! q) of
            (Inl e, v, u) \<Rightarrow> (Inl e, w\<lparr>heap := heap w @ [v, u]\<rparr>)
          | (Inr r, v, u) \<Rightarrow> g r (w\<lparr>heap := heap w @ [v, u]\<rparr>))"
proof -
  have "bindE (np_copy p) (\<lambda>a. bindE (np_copy q) (\<lambda>b. bindE (call2 f a b) g)) w =
        bindE (call2 f (length (heap w)) (Suc (length (heap w)))) g
          (w\<lparr>heap := heap w @ [heap w ! p, heap w ! q]\<rparr>)"
    using assms by (simp add: nth_append)
  also have "\<dots> = (case f (heap w ! p) (heap w ! q) of
            (Inl e, v, u) \<Rightarrow> (Inl e, w\<lparr>heap := heap w @ [v, u]\<rparr>)
          | (Inr r, v, u) \<Rightarrow> g r (w\<lparr>heap := heap w @ [v, u]\<rparr>))"
  proof -
    obtain r v u where f: "f (heap w ! p) (heap w ! q) = (r, v, u)"
      by (cases "f (heap w ! p) (heap w ! q)") auto
    have nth: "(heap w @ [heap w ! p, heap w ! q]) ! length (heap w) = heap w ! p"
      "(heap w @ [heap w ! p, heap w ! q]) ! Suc (length (heap w)) = heap w ! q"
      by (simp_all add: nth_append)
    show ?thesis
      by (cases r) (simp_all add: bindE_call2 nth f list_update_append)
  qed
  finally show ?thesis .
qed


text \<open>
  Claim C7.  Whatever the three metric routines do to the arrays they are handed,
  \<open>compute_metrics\<close> leaves its two arguments as they were: every call gets fresh
  copies.  The same holds for every object that existed before the call, no file is
  written, and it holds when the call raises as well.
\<close>

theorem compute_metrics_arguments_unchanged:
  assumes "ref < length (heap w)" and "x < length (heap w)"
  shows "heap (snd (compute_metrics M A ref x w)) ! ref = heap w ! ref \<and>
         heap (snd (compute_metrics M A ref x w)) ! x = heap w ! x \<and>
         take (length (heap w)) (heap (snd (compute_metrics M A ref x w))) = heap w \<and>
         files (snd (compute_metrics M A ref x w)) = files w"
proof -
  have fr: "frame (length (heap w)) w (snd (compute_metrics M A ref x w))"
    using assms by (rule compute_metrics_frame)
  then show ?thesis
    using assms by (simp add: frame_nth) (simp add: frame_def)
qed

text \<open>With routines that overwrite whatever they are given, on two small arrays.\<close>

theorem compute_metrics_arguments_unchanged_witness:
  "heap (snd (compute_metrics scribbling_metrics rat_arith 0 1 metrics_world)) ! 0 = ref_array \<and>
   heap (snd (compute_metrics scribbling_metrics rat_arith 0 1 metrics_world)) ! 1 = cand_array \<and>
   take 2 (heap (snd (compute_metrics scribbling_metrics rat_arith 0 1 metrics_world)))
     = [ref_array, cand_array] \<and>
   files (snd (compute_metrics scribbling_metrics rat_arith 0 1 metrics_world)) = []"
  using compute_metrics_arguments_unchanged
          [of 0 metrics_world 1 scribbling_metrics rat_arith]
  by (simp add: metrics_world_def numeral_2_eq_2)

subsection \<open>The value of compute_metrics\<close>

lemma foldl_py_iadd_float:
  "foldl (py_iadd A) (PyFloat t) vs = PyFloat (foldl (f_add A) t vs)"
  by (induction vs arbitrary: t) simp_all

lemma foldl_py_iadd_int:
  "vs \<noteq> [] \<Longrightarrow> foldl (py_iadd A) (PyInt k) vs = PyFloat (foldl (f_add A) (f_of_int A k) vs)"
  by (cases vs) (simp_all add: foldl_py_iadd_float)

lemma ssim_loop_Cons:
  assumes "ref < length (heap w)" "x < length (heap w)"
    and "getitem_axis 4 3 i (heap w ! ref) = Inr rv"
    and "getitem_axis 4 3 i (heap w ! x) = Inr xv"
    and "compute_ssim M (Some 0) rv xv = (Inr s, v, u)"
  shows "ssim_loop M A ref x (i # rest) tot w =
         ssim_loop M A ref x rest (py_iadd A tot s)
           (w\<lparr>heap := (heap w @ [rv, xv])[length (heap w) := v, Suc (length (heap w)) := u]\<rparr>)"
  using assms by (simp add: bindE_call2 nth_append)

lemma ssim_loop_value:
  assumes "ref < length (heap w)" "x < length (heap w)"
    and "\<forall>i\<in>set idxs. getitem_axis 4 3 i (heap w ! ref) = Inr (rs i) \<and>
                       getitem_axis 4 3 i (heap w ! x) = Inr (xs i) \<and>
                       fst (compute_ssim M (Some 0) (rs i) (xs i)) = Inr (s i)"
  shows "fst (ssim_loop M A ref x idxs tot w) = Inr (foldl (py_iadd A) tot (map s idxs))"
  using assms
proof (induction idxs arbitrary: tot w)
  case Nil
  then show ?case by (simp add: ret_def)
next
  case (Cons i rest)
  obtain v u where f: "compute_ssim M (Some 0) (rs i) (xs i) = (Inr (s i), v, u)"
    using Cons.prems(3) by (cases "compute_ssim M (Some 0) (rs i) (xs i)") auto
  let ?w1 = "w\<lparr>heap := (heap w @ [rs i, xs i])[length (heap w) := v, Suc (length (heap w)) := u]\<rparr>"
  have step: "ssim_loop M A ref x (i # rest) tot w = ssim_loop M A ref x rest (py_iadd A tot (s i)) ?w1"
    using Cons.prems f by (intro ssim_loop_Cons) simp_all
  have same: "heap ?w1 ! ref = heap w ! ref" "heap ?w1 ! x = heap w ! x"
    using Cons.prems(1,2) by (simp_all add: nth_append)
  have "fst (ssim_loop M A ref x rest (py_iadd A tot (s i)) ?w1)
        = Inr (foldl (py_iadd A) (py_iadd A tot (s i)) (map s rest))"
  proof (rule Cons.IH)
    show "ref < length (heap ?w1)" "x < length (heap ?w1)" using Cons.prems(1,2) by simp_all
    show "\<forall>i\<in>set rest. getitem_axis 4 3 i (heap ?w1 ! ref) = Inr (rs i) \<and>
                       getitem_axis 4 3 i (heap ?w1 ! x) = Inr (xs i) \<and>
                       fst (compute_ssim M (Some 0) (rs i) (xs i)) = Inr (s i)"
      using Cons.prems(3) unfolding same by simp
  qed
  then show ?case unfolding step by simp
qed

lemma compute_metrics_after_scalars:
  assumes "ref < length (heap w)" "x < length (heap w)"
    and "compute_psnr M (heap w ! ref) (heap w ! x) = (Inr pv, v1, u1)"
    and "compute_nrmse M (heap w ! ref) (heap w ! x) = (Inr nv, v2, u2)"
  shows "compute_metrics M A ref x w =
         bindE (lift (shape_last (heap w ! ref))) (\<lambda>n.
         bindE (ssim_loop M A ref x [0..<n] (PyInt 0)) (\<lambda>ssim_total.
         bindE (deref ref) (\<lambda>r'.
         bindE (lift (shape_last r')) (\<lambda>n'.
         bindE (lift (py_truediv A ssim_total (int n'))) (\<lambda>ssim_v.
         ret \<lparr> psnr = pv, nrmse = nv, ssim = ssim_v \<rparr>)))))
           (w\<lparr>heap := heap w @ [v1, u1, v2, u2]\<rparr>)"
proof -
  let ?w1 = "w\<lparr>heap := heap w @ [v1, u1]\<rparr>"
  have v1: "ref < length (heap ?w1)" "x < length (heap ?w1)" using assms(1,2) by simp_all
  have same: "heap ?w1 ! ref = heap w ! ref" "heap ?w1 ! x = heap w ! x"
    using assms(1,2) by (simp_all add: nth_append)
  have w2: "?w1\<lparr>heap := heap ?w1 @ [v2, u2]\<rparr> = w\<lparr>heap := heap w @ [v1, u1, v2, u2]\<rparr>"
    by simp
  have same2: "heap (w\<lparr>heap := heap w @ [v1, u1, v2, u2]\<rparr>) ! ref = heap w ! ref"
    using assms(1) by (simp add: nth_append)
  show ?thesis
    unfolding compute_metrics_def
    apply (subst call_on_copies [OF assms(1,2)])
    apply (simp only: assms(3) prod.case sum.case)
    apply (subst call_on_copies [OF v1])
    apply (simp only: same assms(4) prod.case sum.case w2)
    apply (simp only: bindE_deref same2)
    done
qed

text \<open>
  Claim C4.  For 4-D arrays of equal shape \<open>(C, Z, Y, N)\<close> with \<open>N > 0\<close>, on which the
  metric routines return, \<open>compute_metrics\<close> returns, and its \<open>ssim\<close> is the arithmetic
  mean over \<open>i < N\<close> of \<open>compute_ssim\<close> with \<open>sos_axis = 0\<close> on the pair of slices at index
  \<open>i\<close> of the last axis; the slice has shape \<open>(C, Z, Y)\<close> and its element \<open>[c, z, y]\<close> is the
  element \<open>[c, z, y, i]\<close> of the array.
\<close>

theorem compute_metrics_ssim_mean:
  assumes "ref < length (heap w)" and "x < length (heap w)"
    and "wf_array (heap w ! ref)" and "wf_array (heap w ! x)"
    and "shape (heap w ! ref) = [C, Z, Y, N]" and "shape (heap w ! x) = [C, Z, Y, N]"
    and "0 < N"
    and "fst (compute_psnr M (heap w ! ref) (heap w ! x)) = Inr pv"
    and "fst (compute_nrmse M (heap w ! ref) (heap w ! x)) = Inr nv"
    and "\<forall>i<N. fst (compute_ssim M (Some 0) (last_axis_slice (heap w ! ref) i)
                                            (last_axis_slice (heap w ! x) i)) = Inr (s i)"
  shows "fst (compute_metrics M A ref x w) =
           Inr \<lparr> psnr = pv, nrmse = nv, ssim = arith_mean A (map s [0..<N]) \<rparr> \<and>
         (\<forall>i<N. \<forall>c<C. \<forall>z<Z. \<forall>y<Y.
            shape (last_axis_slice (heap w ! ref) i) = [C, Z, Y] \<and>
            shape (last_axis_slice (heap w ! x) i) = [C, Z, Y] \<and>
            elem (last_axis_slice (heap w ! ref) i) [c, z, y] = elem (heap w ! ref) [c, z, y, i] \<and>
            elem (last_axis_slice (heap w ! x) i) [c, z, y] = elem (heap w ! x) [c, z, y, i])"
proof
  let ?R = "heap w ! ref" and ?X = "heap w ! x"
  obtain v1 u1 where p: "compute_psnr M ?R ?X = (Inr pv, v1, u1)"
    using assms(8) by (cases "compute_psnr M ?R ?X") auto
  obtain v2 u2 where q: "compute_nrmse M ?R ?X = (Inr nv, v2, u2)"
    using assms(9) by (cases "compute_nrmse M ?R ?X") auto
  let ?w2 = "w\<lparr>heap := heap w @ [v1, u1, v2, u2]\<rparr>"
  have R2: "heap ?w2 ! ref = ?R" "heap ?w2 ! x = ?X"
    using assms(1,2) by (simp_all add: nth_append)
  have valid2: "ref < length (heap ?w2)" "x < length (heap ?w2)"
    using assms(1,2) by simp_all
  have last: "shape_last ?R = Inr N"
    using assms(5) by (simp add: shape_last_def)
  obtain t w3 where loop: "ssim_loop M A ref x [0..<N] (PyInt 0) ?w2 = (t, w3)"
    by (cases "ssim_loop M A ref x [0..<N] (PyInt 0) ?w2") auto
  have "fst (ssim_loop M A ref x [0..<N] (PyInt 0) ?w2)
          = Inr (foldl (py_iadd A) (PyInt 0) (map s [0..<N]))"
  proof (rule ssim_loop_value [OF valid2, where rs = "last_axis_slice ?R" and xs = "last_axis_slice ?X"])
    show "\<forall>i\<in>set [0..<N].
            getitem_axis 4 3 i (heap ?w2 ! ref) = Inr (last_axis_slice ?R i) \<and>
            getitem_axis 4 3 i (heap ?w2 ! x) = Inr (last_axis_slice ?X i) \<and>
            fst (compute_ssim M (Some 0) (last_axis_slice ?R i) (last_axis_slice ?X i)) = Inr (s i)"
      unfolding R2 using assms(3-6,10) by (simp add: getitem_last_axis4)
  qed
  moreover have "map s [0..<N] \<noteq> []" using \<open>0 < N\<close> by simp
  ultimately have t: "t = Inr (PyFloat (foldl (f_add A) (f_of_int A 0) (map s [0..<N])))"
    using loop by (simp add: foldl_py_iadd_int)
  have "frame (length (heap w)) ?w2 (snd (ssim_loop M A ref x [0..<N] (PyInt 0) ?w2))"
    using valid2 by (intro ssim_loop_frame) simp_all
  then have R3: "heap w3 ! ref = ?R"
    using loop assms(1) R2 by (auto dest: frame_nth)
  show "fst (compute_metrics M A ref x w) =
           Inr \<lparr> psnr = pv, nrmse = nv, ssim = arith_mean A (map s [0..<N]) \<rparr>"
    using assms(1,2,7) p q last loop t R3
    by (simp add: compute_metrics_after_scalars bindE_def ret_def lift_def deref_def arith_mean_def)
next
  show "\<forall>i<N. \<forall>c<C. \<forall>z<Z. \<forall>y<Y.
            shape (last_axis_slice (heap w ! ref) i) = [C, Z, Y] \<and>
            shape (last_axis_slice (heap w ! x) i) = [C, Z, Y] \<and>
            elem (last_axis_slice (heap w ! ref) i) [c, z, y] = elem (heap w ! ref) [c, z, y, i] \<and>
            elem (last_axis_slice (heap w ! x) i) [c, z, y] = elem (heap w ! x) [c, z, y, i]"
    using assms(5,6) by (simp add: last_axis_slice_at) (simp add: last_axis_slice_def)
qed

text \<open>Two arrays of shape (1, 1, 2, 2) whose slices agree at index 0 and differ at
  index 1: the mean of 1 and 1/2.\<close>

theorem compute_metrics_ssim_mean_witness:
  "fst (compute_metrics scribbling_metrics rat_arith 0 1 metrics_world)
     = Inr \<lparr> psnr = 40, nrmse = 1 / 10, ssim = 3 / 4 \<rparr>"
proof -
  have s: "\<forall>i<2. fst (compute_ssim scribbling_metrics (Some 0)
                        (last_axis_slice (heap metrics_world ! 0) i)
                        (last_axis_slice (heap metrics_world ! 1) i))
                 = Inr (if i = 0 then 1 else 1 / 2)"
    by (auto simp: less_2_cases_iff metrics_world_def scribbling_metrics_def last_axis_slice_def
        ref_array_def cand_array_def upt2)
  show ?thesis
    using compute_metrics_ssim_mean
      [where ref = 0 and x = 1 and w = metrics_world and C = 1 and Z = 1 and Y = 2 and N = 2
         and M = scribbling_metrics and A = rat_arith and pv = 40 and nv = "1 / 10"
         and s = "\<lambda>i. if i = 0 then 1 else 1 / 2", OF _ _ _ _ _ _ _ _ _ s]
    by (simp add: metrics_world_def ref_array_def cand_array_def wf_array_def
        scribbling_metrics_def arith_mean_def rat_arith_def upt2)
qed

text \<open>
  Claim C6.  When the last extent of the reference is zero, \<open>compute_metrics\<close> never
  returns a result: the loop body never runs, \<open>ssim_total\<close> is still the Python int 0
  and the division by \<open>ref.shape[-1]\<close> raises ZeroDivisionError, which nothing in the
  function catches.  (An exception of \<open>compute_psnr\<close> or \<open>compute_nrmse\<close>, which are
  called first, comes first.)
\<close>

theorem compute_metrics_zero_extent:
  assumes "ref < length (heap w)" and "x < length (heap w)"
    and "shape (heap w ! ref) \<noteq> []" and "last (shape (heap w ! ref)) = 0"
  shows "(\<exists>e. fst (compute_metrics M A ref x w) = Inl e) \<and>
         ((\<exists>pv. fst (compute_psnr M (heap w ! ref) (heap w ! x)) = Inr pv) \<and>
          (\<exists>nv. fst (compute_nrmse M (heap w ! ref) (heap w ! x)) = Inr nv)
          \<longrightarrow> fst (compute_metrics M A ref x w) = Inl ZeroDivisionError)"
proof -
  let ?R = "heap w ! ref" and ?X = "heap w ! x"
  obtain r1 v1 u1 where p: "compute_psnr M ?R ?X = (r1, v1, u1)"
    by (cases "compute_psnr M ?R ?X") auto
  obtain r2 v2 u2 where q: "compute_nrmse M ?R ?X = (r2, v2, u2)"
    by (cases "compute_nrmse M ?R ?X") auto
  have last: "shape_last ?R = Inr 0"
    using assms(3,4) by (simp add: shape_last_def)
  have zero: "fst (compute_metrics M A ref x w) = Inl ZeroDivisionError"
    if "r1 = Inr pv" "r2 = Inr nv" for pv nv
  proof -
    have R2: "heap (w\<lparr>heap := heap w @ [v1, u1, v2, u2]\<rparr>) ! ref = ?R"
      using assms(1) by (simp add: nth_append)
    show ?thesis
      using assms(1,2) p q that last R2
      by (simp add: compute_metrics_after_scalars ret_def)
  qed
  show ?thesis
  proof (cases r1)
    case (Inl e)
    then have "fst (compute_metrics M A ref x w) = Inl e"
      using p assms(1,2) by (simp add: compute_metrics_def bindE_call2 nth_append)
    then show ?thesis using p Inl by simp
  next
    case a: (Inr pv)
    show ?thesis
    proof (cases r2)
      case (Inl e)
      then have "fst (compute_metrics M A ref x w) = Inl e"
        using p q a assms(1,2) by (simp add: compute_metrics_def bindE_call2 nth_append)
      then show ?thesis using q Inl by simp
    next
      case (Inr nv)
      then show ?thesis using zero a by simp
    qed
  qed
qed

text \<open>A reference of shape (1, 1, 2, 0).\<close>

theorem compute_metrics_zero_extent_witness:
  "last (shape (heap empty_world ! 0)) = 0 \<and>
   fst (compute_metrics scribbling_metrics rat_arith 0 1 empty_world) = Inl ZeroDivisionError"
proof -
  have h: "0 < length (heap empty_world)" "1 < length (heap empty_world)"
    "shape (heap empty_world ! 0) \<noteq> []" "last (shape (heap empty_world ! 0)) = 0"
    by (simp_all add: empty_world_def empty_last_def)
  have p: "\<exists>pv. fst (compute_psnr scribbling_metrics (heap empty_world ! 0) (heap empty_world ! 1)) = Inr pv"
    by (simp add: scribbling_metrics_def)
  have q: "\<exists>nv. fst (compute_nrmse scribbling_metrics (heap empty_world ! 0) (heap empty_world ! 1)) = Inr nv"
    by (intro exI [of _ "1 / 10"]) (simp add: scribbling_metrics_def)
  from compute_metrics_zero_extent [OF h, of scribbling_metrics rat_arith] p q h(4)
  show ?thesis by blast
qed

subsection \<open>The three views\<close>

lemma write_views_png_run:
  assumes "data (heap w ! image_p) \<noteq> []" and "shape (heap w ! image_p) = [a, b, c]"
    and "getitem_axis 3 0 (a div 2)
           (scale_image N (max_abs N (heap w ! image_p)) (heap w ! image_p)) = Inr g0"
    and "getitem_axis 3 1 (b div 2)
           (scale_image N (max_abs N (heap w ! image_p)) (heap w ! image_p)) = Inr g1"
    and "getitem_axis 3 2 (c div 2)
           (scale_image N (max_abs N (heap w ! image_p)) (heap w ! image_p)) = Inr g2"
  shows "write_views_png N filebase image_p w =
        (Inr (), w\<lparr>files := files w @ [(filebase @ ''_sag.png'', Png (map_array (uint8 N) g0)),
                                         (filebase @ ''_cor.png'', Png (map_array (uint8 N) g1)),
                                         (filebase @ ''_ax.png'', Png (map_array (uint8 N) g2))]\<rparr>)"
proof -
  have "shape (scale_image N (max_abs N (heap w ! image_p)) (heap w ! image_p)) = [a, b, c]"
    using assms(2) by (simp add: scale_image_def map_array_def)
  then show ?thesis
    using assms(1,3,4,5)
    by (simp add: write_views_png_def np_max_abs shape_at_def imwrite_def Let_def)
qed

text \<open>
  Claim C8, as the code has it.  For a 3-D volume of shape \<open>(a, b, c)\<close> with no empty
  axis,
  \<open>write_views_png\<close> returns and writes exactly three files, \<open>filebase\<close> followed by
  \<^verbatim>\<open>_sag.png\<close>, \<^verbatim>\<open>_cor.png\<close> and \<^verbatim>\<open>_ax.png\<close>: the slices at the middle index
  (extent div 2) of axis 0, 1 and 2, each element turned into its pixel (divided by
  0.9 times the maximum absolute value, times 255, converted to unsigned 8-bit, with no
  other treatment).
\<close>

theorem write_views_png_three_views:
  assumes "wf_array (heap w ! image_p)" and "shape (heap w ! image_p) = [a, b, c]"
    and "0 < a" and "0 < b" and "0 < c"
  shows "\<exists>sag cor ax.
      write_views_png N filebase image_p w =
        (Inr (), w\<lparr>files := files w @ [(filebase @ ''_sag.png'', Png sag),
                                         (filebase @ ''_cor.png'', Png cor),
                                         (filebase @ ''_ax.png'', Png ax)]\<rparr>) \<and>
      shape sag = [b, c] \<and> shape cor = [a, c] \<and> shape ax = [a, b] \<and>
      (\<forall>j<b. \<forall>k<c. elem sag [j, k] = pixel N (heap w ! image_p) (elem (heap w ! image_p) [a div 2, j, k])) \<and>
      (\<forall>i<a. \<forall>k<c. elem cor [i, k] = pixel N (heap w ! image_p) (elem (heap w ! image_p) [i, b div 2, k])) \<and>
      (\<forall>i<a. \<forall>j<b. elem ax [i, j] = pixel N (heap w ! image_p) (elem (heap w ! image_p) [i, j, c div 2]))"
proof -
  let ?img = "heap w ! image_p"
  let ?m = "max_abs N ?img"
  let ?sc = "\<lambda>v. np_mul N (np_div N v (np_mul N ?m (lit_0_9 N))) (lit_255 N)"
  let ?io = "scale_image N ?m ?img"
  have len: "length (data ?img) = a * (b * c)"
    using assms(1,2) by (simp add: wf_array_def)
  then have ne: "data ?img \<noteq> []" using assms(3-5) by auto
  have io_shape: "shape ?io = [a, b, c]" using assms(2) by (simp add: scale_image_def map_array_def)
  have io_data: "data ?io = map ?sc (data ?img)" by (simp add: scale_image_def map_array_def)
  have io_wf: "wf_array ?io" using len io_shape io_data by (simp add: wf_array_def)
  have mid: "a div 2 < a" "b div 2 < b" "c div 2 < c" using assms(3-5) by simp_all
  obtain g0 where g0: "getitem_axis 3 0 (a div 2) ?io = Inr g0" "shape g0 = [b, c]"
      "length (data g0) = b * c"
      "\<And>r. r < b * c \<Longrightarrow> data g0 ! r = data ?io ! ((a div 2) * (b * c) + r)"
    using getitem_axis_data [OF io_wf, of 3 0 "a div 2"] mid io_shape by auto
  obtain g1 where g1: "getitem_axis 3 1 (b div 2) ?io = Inr g1" "shape g1 = [a, c]"
      "length (data g1) = a * c"
      "\<And>out r. out < a \<Longrightarrow> r < c \<Longrightarrow> data g1 ! (out * c + r) = data ?io ! ((out * b + b div 2) * c + r)"
    using getitem_axis_data [OF io_wf, of 3 1 "b div 2"] mid io_shape by auto
  obtain g2 where g2: "getitem_axis 3 2 (c div 2) ?io = Inr g2" "shape g2 = [a, b]"
      "length (data g2) = a * b"
      "\<And>out. out < a * b \<Longrightarrow> data g2 ! out = data ?io ! (out * c + c div 2)"
    using getitem_axis_data [OF io_wf, of 3 2 "c div 2"] mid io_shape by auto
  let ?sag = "map_array (uint8 N) g0" and ?cor = "map_array (uint8 N) g1"
    and ?ax = "map_array (uint8 N) g2"
  have run: "write_views_png N filebase image_p w =
        (Inr (), w\<lparr>files := files w @ [(filebase @ ''_sag.png'', Png ?sag),
                                         (filebase @ ''_cor.png'', Png ?cor),
                                         (filebase @ ''_ax.png'', Png ?ax)]\<rparr>)"
    using ne assms(2) g0(1) g1(1) g2(1) by (rule write_views_png_run)
  have sag: "elem ?sag [j, k] = pixel N ?img (elem ?img [a div 2, j, k])" if "j < b" "k < c" for j k
  proof -
    have r: "j * c + k < b * c" using that by (rule idx2)
    have "(a div 2) * (b * c) + (j * c + k) < a * (b * c)" using mid(1) that by (rule idx3)
    then show ?thesis
      using r g0(2,3) g0(4) [OF r] assms(2) len
      by (simp add: elem_def map_array_def io_data pixel_def)
  qed
  have cor: "elem ?cor [i, k] = pixel N ?img (elem ?img [i, b div 2, k])" if "i < a" "k < c" for i k
  proof -
    have r: "i * c + k < a * c" using that by (rule idx2)
    have "i * (b * c) + ((b div 2) * c + k) < a * (b * c)" using that(1) mid(2) that(2) by (rule idx3)
    then show ?thesis
      using r g1(2,3) g1(4) [OF that] assms(2) len
      by (simp add: elem_def map_array_def io_data pixel_def algebra_simps)
  qed
  have ax: "elem ?ax [i, j] = pixel N ?img (elem ?img [i, j, c div 2])" if "i < a" "j < b" for i j
  proof -
    have r: "i * b + j < a * b" using that by (rule idx2)
    have "i * (b * c) + (j * c + c div 2) < a * (b * c)" using that mid(3) by (rule idx3)
    then show ?thesis
      using r g2(2,3) g2(4) [OF r] assms(2) len
      by (simp add: elem_def map_array_def io_data pixel_def algebra_simps)
  qed
  show ?thesis
    apply (rule exI [of _ ?sag], rule exI [of _ ?cor], rule exI [of _ ?ax])
    using run sag cor ax g0(2) g1(2) g2(2) by (simp add: map_array_def)
qed

text \<open>On the volume of shape (2, 2, 2) that holds 1 to 8.\<close>

theorem write_views_png_three_views_witness:
  "\<exists>sag cor ax.
      write_views_png float_numpy ''out/truth'' 0 volume_world =
        (Inr (), volume_world\<lparr>files := files volume_world @
            [(''out/truth'' @ ''_sag.png'', Png sag), (''out/truth'' @ ''_cor.png'', Png cor),
             (''out/truth'' @ ''_ax.png'', Png ax)]\<rparr>) \<and>
      shape sag = [2, 2] \<and> shape cor = [2, 2] \<and> shape ax = [2, 2] \<and>
      elem sag [0, 1] = pixel float_numpy volume (elem volume [1, 0, 1]) \<and>
      elem cor [0, 1] = pixel float_numpy volume (elem volume [0, 1, 1]) \<and>
      elem ax [0, 1] = pixel float_numpy volume (elem volume [0, 1, 1])"
proof -
  have h: "wf_array (heap volume_world ! 0)" "shape (heap volume_world ! 0) = [2, 2, 2]"
    "0 < (2::nat)"
    by (simp_all add: volume_world_def volume_def wf_array_def)
  have v: "heap volume_world ! 0 = volume" by (simp add: volume_world_def)
  from write_views_png_three_views [OF h(1,2) h(3) h(3) h(3), of float_numpy "''out/truth''"]
  obtain sag cor ax where
    "write_views_png float_numpy ''out/truth'' 0 volume_world =
        (Inr (), volume_world\<lparr>files := files volume_world @
            [(''out/truth'' @ ''_sag.png'', Png sag), (''out/truth'' @ ''_cor.png'', Png cor),
             (''out/truth'' @ ''_ax.png'', Png ax)]\<rparr>)"
    "shape sag = [2, 2]" "shape cor = [2, 2]" "shape ax = [2, 2]"
    "\<forall>j<2. \<forall>k<2. elem sag [j, k] = pixel float_numpy volume (elem volume [2 div 2, j, k])"
    "\<forall>i<2. \<forall>k<2. elem cor [i, k] = pixel float_numpy volume (elem volume [i, 2 div 2, k])"
    "\<forall>i<2. \<forall>j<2. elem ax [i, j] = pixel float_numpy volume (elem volume [i, j, 2 div 2])"
    unfolding v by blast
  then show ?thesis
    by (intro exI [of _ sag] exI [of _ cor] exI [of _ ax]) simp
qed

text \<open>The same run evaluated.  The largest element, 8, becomes 8 / 7.2 * 255 = 283.3,
  and the conversion takes it to 283 - 256 = 27: nothing clamps it to 255.\<close>

lemma write_views_png_example:
  "write_views_png float_numpy ''out/truth'' 0 volume_world =
     (Inr (),
      volume_world\<lparr>files :=
         [(''out/truth_sag.png'', Png \<lparr>shape = [2, 2], data = [177, 212, 247, 27]\<rparr>),
          (''out/truth_cor.png'', Png \<lparr>shape = [2, 2], data = [106, 141, 247, 27]\<rparr>),
          (''out/truth_ax.png'', Png \<lparr>shape = [2, 2], data = [70, 141, 212, 27]\<rparr>)]\<rparr>)"
  by (simp add: write_views_png_def volume_world_def volume_def float_numpy_def np_max_def
      map_array_def scale_image_def shape_at_def getitem_axis_def imwrite_def Let_def upt_rec)
    code_simp

text \<open>
  The claim as the specification words it, for every 3-D volume, fails on a volume
  with an empty axis: \<^verbatim>\<open>np.max\<close> of an empty array raises ValueError and no file is
  written.
\<close>

theorem write_views_png_empty_volume_counterexample:
  "length (shape empty_volume) = 3 \<and> wf_array empty_volume \<and>
   write_views_png float_numpy ''out/truth'' 0 \<lparr>heap = [empty_volume], files = []\<rparr> =
     (Inl ValueError, \<lparr>heap = [empty_volume], files = []\<rparr>)"
  by (simp add: write_views_png_def empty_volume_def wf_array_def np_max_def map_array_def)

text \<open>
  Claim C9.  On a volume with no empty axis whose elements are all the same scalar \<open>z\<close>,
  and so on an all-zero volume, \<open>write_views_png\<close> returns and writes its three files.
  The divisor is the maximum absolute value times 0.9, which is zero on the all-zero
  volume; the division is numpy's elementwise one, which yields a scalar and raises
  nothing; every pixel is that quotient times 255, converted.
\<close>

theorem write_views_png_constant_volume:
  assumes "shape (heap w ! image_p) = [a, b, c]" and "0 < a" and "0 < b" and "0 < c"
    and "data (heap w ! image_p) = replicate (a * b * c) z"
  shows "write_views_png N filebase image_p w =
     (Inr (),
      w\<lparr>files := files w @
         [(filebase @ ''_sag.png'',
           Png \<lparr>shape = [b, c], data = replicate (b * c)
             (pixel N (heap w ! image_p) z)\<rparr>),
          (filebase @ ''_cor.png'',
           Png \<lparr>shape = [a, c], data = replicate (a * c)
             (pixel N (heap w ! image_p) z)\<rparr>),
          (filebase @ ''_ax.png'',
           Png \<lparr>shape = [a, b], data = replicate (a * b)
             (pixel N (heap w ! image_p) z)\<rparr>)]\<rparr>)"
proof -
  let ?img = "heap w ! image_p"
  let ?v = "np_mul N (np_div N z (np_mul N (max_abs N ?img) (lit_0_9 N))) (lit_255 N)"
  let ?io = "scale_image N (max_abs N ?img) ?img"
  have pos: "0 < a * b * c" using assms(2-4) by simp
  then obtain k where k: "a * b * c = Suc k" by (cases "a * b * c") auto
  have ne: "data ?img \<noteq> []" using assms(5) k by simp
  have io_data: "data ?io = replicate (a * b * c) ?v"
    using assms(5) by (simp add: scale_image_def map_array_def)
  have px: "uint8 N ?v = pixel N ?img z" by (simp add: pixel_def)
  have io_shape: "shape ?io = [a, b, c]"
    using assms(1) by (simp add: scale_image_def map_array_def)
  have io_wf: "wf_array ?io" using io_data io_shape by (simp add: wf_array_def)
  have mid: "a div 2 < a" "b div 2 < b" "c div 2 < c" using assms(2-4) by simp_all
  have const: "g = \<lparr>shape = shape g, data = replicate (length (data g)) ?v\<rparr>"
    if "getitem_axis 3 ax i ?io = Inr g" for ax i g
  proof -
    have "set (data g) \<subseteq> {?v}"
      using getitem_axis_set [OF that] io_data by auto
    then have "data g = replicate (length (data g)) ?v" by (rule all_same_replicate)
    then show ?thesis by (cases g) simp
  qed
  obtain g0 where g0: "getitem_axis 3 0 (a div 2) ?io = Inr g0" "shape g0 = [b, c]"
      "length (data g0) = b * c"
    using getitem_axis_data [OF io_wf, of 3 0 "a div 2"] mid io_shape by auto
  obtain g1 where g1: "getitem_axis 3 1 (b div 2) ?io = Inr g1" "shape g1 = [a, c]"
      "length (data g1) = a * c"
    using getitem_axis_data [OF io_wf, of 3 1 "b div 2"] mid io_shape by auto
  obtain g2 where g2: "getitem_axis 3 2 (c div 2) ?io = Inr g2" "shape g2 = [a, b]"
      "length (data g2) = a * b"
    using getitem_axis_data [OF io_wf, of 3 2 "c div 2"] mid io_shape by auto
  have e0: "map_array (uint8 N) g0 = \<lparr>shape = [b, c], data = replicate (b * c) (pixel N ?img z)\<rparr>"
    using const [OF g0(1)] g0(2,3) px by (simp add: map_array_def)
  have e1: "map_array (uint8 N) g1 = \<lparr>shape = [a, c], data = replicate (a * c) (pixel N ?img z)\<rparr>"
    using const [OF g1(1)] g1(2,3) px by (simp add: map_array_def)
  have e2: "map_array (uint8 N) g2 = \<lparr>shape = [a, b], data = replicate (a * b) (pixel N ?img z)\<rparr>"
    using const [OF g2(1)] g2(2,3) px by (simp add: map_array_def)
  show ?thesis
    using write_views_png_run [OF ne assms(1) g0(1) g1(1) g2(1), of filebase]
    by (simp only: e0 e1 e2)
qed

text \<open>On the all-zero volume of shape (2, 2, 2): the divisor is 0, the quotient 0/0 is
  \<open>nan\<close>, and so is every element that is converted to a pixel.\<close>

theorem write_views_png_constant_volume_witness:
  "max_abs float_numpy zero_volume = Fin 0 \<and>
   np_div float_numpy (Fin 0)
     (np_mul float_numpy (max_abs float_numpy zero_volume) (lit_0_9 float_numpy)) = NaN \<and>
   write_views_png float_numpy ''out/truth'' 0 zero_world =
     (Inr (),
      zero_world\<lparr>files :=
         [(''out/truth_sag.png'', Png \<lparr>shape = [2, 2], data = [0, 0, 0, 0]\<rparr>),
          (''out/truth_cor.png'', Png \<lparr>shape = [2, 2], data = [0, 0, 0, 0]\<rparr>),
          (''out/truth_ax.png'', Png \<lparr>shape = [2, 2], data = [0, 0, 0, 0]\<rparr>)]\<rparr>)"
  using write_views_png_constant_volume
    [where w = zero_world and image_p = 0 and a = 2 and b = 2 and c = 2 and z = "Fin 0"
       and N = float_numpy and filebase = "''out/truth''"]
  by (simp add: zero_world_def zero_volume_def float_numpy_def inf_of_sign_def numeral_eq_Suc
      pixel_def max_abs_def)

subsection \<open>The maps axis of the sensitivity map\<close>

text \<open>
  Claim C2, as the code has it.  Line 117 tests \<^verbatim>\<open>sensemap.ndim != 5\<close>: an array with
  exactly five axes stays the object it is, and every other array, with fewer or with
  more axes, is replaced by one with a leading axis of extent 1 and the same elements.
\<close>

theorem normalize_sensemap_maps_axis:
  "normalize_sensemap sm w =
     (if ndim (heap w ! sm) = 5 then (Inr sm, w)
      else (Inr (length (heap w)),
            w\<lparr>heap := heap w @
               [\<lparr>shape = 1 # shape (heap w ! sm), data = data (heap w ! sm)\<rparr>]\<rparr>))"
  by (simp add: normalize_sensemap_def expand_dims0_def ret_def alloc_def)

text \<open>A map of shape (8, 64, 64, 64) becomes one of shape (1, 8, 64, 64, 64).\<close>

theorem normalize_sensemap_maps_axis_witness:
  "fst (normalize_sensemap 0 \<lparr>heap = [four_axes], files = []\<rparr>) = Inr 1 \<and>
   shape (heap (snd (normalize_sensemap 0 \<lparr>heap = [four_axes], files = []\<rparr>)) ! 1)
     = [1, 8, 64, 64, 64] \<and>
   data (heap (snd (normalize_sensemap 0 \<lparr>heap = [four_axes], files = []\<rparr>)) ! 1)
     = data four_axes"
  using normalize_sensemap_maps_axis [of 0 "\<lparr>heap = [four_axes], files = []\<rparr>"]
  by (simp add: four_axes_def ndim_def)

text \<open>
  The claim as the specification words it (an array with five or more axes is left
  unchanged) fails: a map with six axes gets a seventh.
\<close>

theorem normalize_sensemap_six_axes_counterexample:
  "5 \<le> ndim six_axes \<and>
   fst (normalize_sensemap 0 \<lparr>heap = [six_axes], files = []\<rparr>) = Inr 1 \<and>
   heap (snd (normalize_sensemap 0 \<lparr>heap = [six_axes], files = []\<rparr>)) ! 1 \<noteq> six_axes \<and>
   shape (heap (snd (normalize_sensemap 0 \<lparr>heap = [six_axes], files = []\<rparr>)) ! 1)
     = [1, 1, 1, 1, 1, 1, 1]"
  by (simp add: normalize_sensemap_def expand_dims0_def alloc_def six_axes_def ndim_def)

subsection \<open>Single precision on the numbers of the examples\<close>

lemma fl_single_values:
  "fl_single (Fin 0) = Fin 0"
  "fl_single (Fin 3) = Fin 3"
  "fl_single (Fin 6) = Fin 6"
  "fl_single (Fin 12) = Fin 12"
  "fl_single (Fin 16777217) = Fin 16777216"
  "fl_single (Fin 33554435) = Fin 33554436"
  "fl_single (Fin 50331651) = Fin 50331652"
  "fl_single (Fin 100663305) = Fin 100663304"
  "fl_single (Fin 50331648) = Fin 50331648"
  "fl_single (Fin 100663308) = Fin 100663312"
  "fl_single (Fin 100663296) = Fin 100663296"
  "fl_single (Fin 201326616) = Fin 201326624"
  by code_simp+

subsection \<open>The two ways to a sensitivity map\<close>

text \<open>
  Claim C10.  With a non-empty \<^verbatim>\<open>--sensemap\<close> path that holds an array, the map is that
  array as it is stored: no conversion is applied and no file is written.  Without a
  path (or with the empty string, which Python takes for false) the estimate is
  converted to complex64 and that array is written to \<^verbatim>\<open>sensemap.npy\<close> in the output
  directory and used.  The estimator receives the input k-space itself and may leave
  it changed (\<open>k'\<close>).
\<close>

theorem obtain_sensemap_branches:
  "(sensemap ar = Some path \<and> path \<noteq> [] \<and> stored E w path = Some (Npy a) \<longrightarrow>
      obtain_sensemap N E ar kspace_input w =
        (Inr (length (heap w)), w\<lparr>heap := heap w @ [a]\<rparr>)) \<and>
   ((sensemap ar = None \<or> sensemap ar = Some []) \<and>
    jsense_recon E mask_calib (heap w ! kspace_input) = (Inr est, k') \<longrightarrow>
      obtain_sensemap N E ar kspace_input w =
        (Inr (length (heap w)),
         w\<lparr>heap := (heap w)[kspace_input := k'] @ [astype_complex64 N est],
           files := files w @
             [(path_join (output_dir ar) ''sensemap.npy'', Npy (astype_complex64 N est))]\<rparr>))"
  by (auto simp: obtain_sensemap_def estimate_sensemap_def np_load_def alloc_def ret_def
      bindE_call1 nth_append)

text \<open>The stored map of the example, whose last element a conversion would change, and
  the estimate of the example, which is converted: 3 * 16777217 = 50331651 becomes
  50331652.\<close>

theorem obtain_sensemap_branches_witness:
  "obtain_sensemap float_numpy example_extern example_args 0 truth_world =
     (Inr 1, truth_world\<lparr>heap := [truth, stored_map]\<rparr>) \<and>
   astype_complex64 float_numpy stored_map \<noteq> stored_map \<and>
   obtain_sensemap float_numpy example_extern (example_args\<lparr>sensemap := None\<rparr>) 0 truth_world =
     (Inr 1,
      truth_world\<lparr>heap := [truth, \<lparr>shape = [1, 2, 2, 1],
                                     data = [Fin 50331652, Fin 6, Fin 100663304, Fin 12]\<rparr>],
                  files := [(''out/sensemap.npy'',
                             Npy \<lparr>shape = [1, 2, 2, 1],
                                  data = [Fin 50331652, Fin 6, Fin 100663304, Fin 12]\<rparr>)]\<rparr>)"
  using obtain_sensemap_branches
      [where ar = example_args and path = "''maps.npy''" and E = example_extern
         and w = truth_world and a = stored_map and N = float_numpy and kspace_input = 0]
    obtain_sensemap_branches
      [where ar = "example_args\<lparr>sensemap := None\<rparr>" and E = example_extern
         and w = truth_world and N = float_numpy and kspace_input = 0
         and est = "map_array (\<lambda>v. fl_mul v (Fin 3)) truth" and k' = truth]
  by (simp add: example_args_def example_extern_def truth_world_def stored_def stored_map_def
      truth_def astype_complex64_def map_array_def float_numpy_def path_join_def
      fl_single_values)

subsection \<open>The input k-space\<close>










subsection \<open>The writes of a run\<close>

text \<open>Which statements make no write of a selection.  A picture goes to a path that
  ends in \<open>g\<close>; the second premise of the rules below says that the selection has no
  such write.\<close>

lemma silent_bind:
  assumes "silent sel m" and "\<And>r. silent sel (f r)"
  shows "silent sel (bindE m f)"
proof -
  have "filter sel (files (snd (bindE m f w))) = filter sel (files w)" for w
  proof -
    obtain r1 w1 where m: "m w = (r1, w1)" by (cases "m w") auto
    have 1: "filter sel (files w1) = filter sel (files w)"
      using assms(1) m unfolding silent_def by (metis snd_conv)
    show ?thesis
    proof (cases r1)
      case (Inl e)
      then show ?thesis using m 1 by (simp add: bindE_def)
    next
      case (Inr r)
      have "filter sel (files (snd (f r w1))) = filter sel (files w1)"
        using assms(2) unfolding silent_def by blast
      then show ?thesis using m 1 Inr by (simp add: bindE_def)
    qed
  qed
  then show ?thesis unfolding silent_def by blast
qed

lemma silent_ret: "silent sel (ret r)"
  by (simp add: silent_def ret_def)

lemma silent_raise: "silent sel (raise e)"
  by (simp add: silent_def raise_def)

lemma silent_lift: "silent sel (lift v)"
  by (simp add: silent_def lift_def)

lemma silent_deref: "silent sel (deref p)"
  by (simp add: silent_def deref_def)

lemma silent_alloc: "silent sel (alloc v)"
  by (simp add: silent_def alloc_def)

lemma silent_np_copy: "silent sel (np_copy p)"
  by (simp add: silent_def np_copy_def alloc_def)

lemma silent_call1: "silent sel (call1 f p)"
  by (simp add: silent_def call1_def split: prod.splits)

lemma silent_call2: "silent sel (call2 f p q)"
  by (simp add: silent_def call2_def split: prod.splits)


lemma silent_imwrite: "(\<And>c. \<not> sel (path, Png c)) \<Longrightarrow> silent sel (imwrite path img)"
  by (simp add: silent_def imwrite_def)


lemma silent_ssim_loop: "silent sel (ssim_loop M A ref x idxs tot)"
proof (induction idxs arbitrary: tot)
  case Nil
  show ?case by (simp only: ssim_loop.simps) (rule silent_ret)
next
  case (Cons i rest)
  show ?case
    by (simp only: ssim_loop.simps)
       (intro silent_bind silent_deref silent_lift silent_alloc silent_call2 Cons.IH)
qed

lemma silent_compute_metrics: "silent sel (compute_metrics M A ref x)"
  unfolding compute_metrics_def
  by (intro silent_bind silent_np_copy silent_call2 silent_deref silent_lift silent_ssim_loop
      silent_ret)

lemma silent_write_views_png:
  assumes "\<And>path img. last path = CHR ''g'' \<Longrightarrow> \<not> sel (path, Png img)"
  shows "silent sel (write_views_png N filebase p)"
  unfolding write_views_png_def Let_def
  by (intro silent_bind silent_deref silent_lift silent_imwrite assms) simp_all



lemma silent_compare_output:
  assumes "\<And>path img. last path = CHR ''g'' \<Longrightarrow> \<not> sel (path, Png img)"
  shows "silent sel (compare_output N E M A ar image_truth kspace_output name)"
  unfolding compare_output_def
  by (intro silent_bind silent_call1 silent_alloc silent_compute_metrics silent_write_views_png
      silent_ret assms)











lemma bindE_assoc: "bindE (bindE m f) g = bindE m (\<lambda>r. bindE (f r) g)"
  by (rule ext) (simp add: bindE_def split: prod.splits sum.splits)

lemma bindE_np_load:
  "bindE (np_load E path) f w =
     (case stored E w path of
        Some (Npy a) \<Rightarrow> f (length (heap w)) (w\<lparr>heap := heap w @ [a]\<rparr>)
      | Some (Png img) \<Rightarrow> (Inl ValueError, w)
      | None \<Rightarrow> (Inl IOError, w))"
  by (simp add: bindE_def np_load_def alloc_def raise_def split: option.splits written.splits)

lemmas example_defs = bindE_assoc bindE_np_load
  main_def run_comparisons_def load_truth_def apply_mask_def acquire_sensemap_def
  obtain_sensemap_def normalize_sensemap_def truth_comparison_def input_comparison_def
  run_model_def run_inference_def report_model_def compare_output_def compute_metrics_def
  write_views_png_def start_world_def loop_world_def example_extern_def example_run_def
  example_args_def scribbling_metrics_def scribble_def rat_arith_def float_numpy_def
  stored_map_def input_array_def truth_def stored_def np_reshape_def
  np_multiply_def broadcast_shapes_def pad_shape_def operand_pos_def mask_accel_def
  mask_calib_def random_seed_def ndim_def
  bindE_call2 bindE_call1 alloc_def ret_def np_max_def scale_image_def shape_at_def shape_last_def
  getitem_axis_def imwrite_def astype_complex64_def map_array_def path_join_def
  writes_to_def at_path_def is_npy_def fl_single_values
  nth_append Let_def upt_rec



subsection \<open>The model loop\<close>

text \<open>Rules for the statements of the script, for the assertion \<open>kept\<close>.\<close>

lemma hoareI:
  assumes "\<And>w e w'. P w \<Longrightarrow> m w = (Inl e, w') \<Longrightarrow> E w'"
    and "\<And>w r w'. P w \<Longrightarrow> m w = (Inr r, w') \<Longrightarrow> Q r w'"
  shows "hoare P m Q E"
  unfolding hoare_def using assms by (auto split: prod.splits sum.splits)

lemma hoare_Inl: "hoare P m Q E \<Longrightarrow> P w \<Longrightarrow> m w = (Inl e, w') \<Longrightarrow> E w'"
  unfolding hoare_def by fastforce

lemma hoare_Inr: "hoare P m Q E \<Longrightarrow> P w \<Longrightarrow> m w = (Inr r, w') \<Longrightarrow> Q r w'"
  unfolding hoare_def by fastforce

lemma hoare_seq:
  assumes "hoare P m Q E" and "\<And>r. hoare (Q r) (f r) R E"
  shows "hoare P (bindE m f) R E"
proof (rule hoareI)
  fix w e w' assume P: "P w" and run: "bindE m f w = (Inl e, w')"
  obtain r1 w1 where m: "m w = (r1, w1)" by (cases "m w") auto
  show "E w'"
  proof (cases r1)
    case (Inl e1)
    then show ?thesis using run m hoare_Inl [OF assms(1) P] by (simp add: bindE_def)
  next
    case (Inr r)
    then have "Q r w1" using m hoare_Inr [OF assms(1) P] by simp
    moreover have "f r w1 = (Inl e, w')" using run m Inr by (simp add: bindE_def)
    ultimately show ?thesis using hoare_Inl [OF assms(2)] by blast
  qed
next
  fix w r' w' assume P: "P w" and run: "bindE m f w = (Inr r', w')"
  obtain r1 w1 where m: "m w = (r1, w1)" by (cases "m w") auto
  show "R r' w'"
  proof (cases r1)
    case (Inl e1)
    then show ?thesis using run m by (simp add: bindE_def)
  next
    case (Inr r)
    then have "Q r w1" using m hoare_Inr [OF assms(1) P] by simp
    moreover have "f r w1 = (Inr r', w')" using run m Inr by (simp add: bindE_def)
    ultimately show ?thesis using hoare_Inr [OF assms(2)] by blast
  qed
qed

lemma hoare_weaken:
  assumes "hoare P' m Q' E'" and "\<And>w. P w \<Longrightarrow> P' w" and "\<And>r w. Q' r w \<Longrightarrow> Q r w"
    and "\<And>w. E' w \<Longrightarrow> E w"
  shows "hoare P m Q E"
proof (rule hoareI)
  fix w e w' assume "P w" "m w = (Inl e, w')"
  then show "E w'" using hoare_Inl [OF assms(1)] assms(2,4) by blast
next
  fix w r w' assume "P w" "m w = (Inr r, w')"
  then show "Q r w'" using hoare_Inr [OF assms(1)] assms(2,3) by blast
qed

lemma hoare_pure: "(\<phi> \<Longrightarrow> hoare P m Q E) \<Longrightarrow> hoare (\<lambda>w. P w \<and> \<phi>) m Q E"
  unfolding hoare_def by auto

lemma kept_subset: "kept h0 T L w \<Longrightarrow> set L' \<subseteq> set L \<Longrightarrow> kept h0 T L' w"
  unfolding kept_def by auto

lemma kept_files [simp]: "kept h0 T L (w\<lparr>files := fs\<rparr>) = kept h0 T L w"
  by (simp add: kept_def)

lemma hoare_lift: "hoare (kept h0 T L) (lift v) (\<lambda>r w. kept h0 T L w \<and> v = Inr r) (kept h0 T [])"
  unfolding hoare_def lift_def by (cases v) (auto elim: kept_subset)

lemma hoare_ret: "hoare (kept h0 T L) (ret r) (\<lambda>_. kept h0 T []) (kept h0 T [])"
  unfolding hoare_def ret_def by (auto elim: kept_subset)

lemma hoare_deref: "hoare (kept h0 T L) (deref p) (\<lambda>r w. kept h0 T L w \<and> r = heap w ! p) (kept h0 T [])"
  unfolding hoare_def deref_def by auto

lemma hoare_alloc: "hoare (kept h0 T L) (alloc v) (\<lambda>r. kept h0 T (r # L)) (kept h0 T [])"
  unfolding hoare_def alloc_def kept_def by (auto simp: nth_append)

lemma hoare_np_copy: "hoare (kept h0 T L) (np_copy p) (\<lambda>r. kept h0 T (r # L)) (kept h0 T [])"
  unfolding hoare_def np_copy_def alloc_def kept_def by (auto simp: nth_append)

lemma hoare_np_save: "hoare (kept h0 T L) (np_save path p) (\<lambda>_. kept h0 T L) (kept h0 T [])"
  unfolding hoare_def np_save_def by simp

lemma hoare_imwrite: "hoare (kept h0 T L) (imwrite path img) (\<lambda>_. kept h0 T L) (kept h0 T [])"
  unfolding hoare_def imwrite_def by simp

lemma hoare_imwrite_last: "hoare (kept h0 T L) (imwrite path img) (\<lambda>_. kept h0 T []) (kept h0 T [])"
  unfolding hoare_def imwrite_def by (auto elim: kept_subset)

lemma kept_update:
  "kept h0 T L w \<Longrightarrow> p \<in> set L \<or> p \<in> T \<Longrightarrow> kept h0 T L (w\<lparr>heap := (heap w)[p := v]\<rparr>)"
proof -
  assume k: "kept h0 T L w" and p: "p \<in> set L \<or> p \<in> T"
  have "(heap w)[p := v] ! pa = h0 ! pa" if "pa < length h0" "pa \<notin> T" for pa
  proof -
    have "p \<noteq> pa" using p that k unfolding kept_def by auto
    then show ?thesis using k that unfolding kept_def by simp
  qed
  then show ?thesis using k unfolding kept_def by simp
qed

lemma hoare_call1:
  "p \<in> set L \<or> p \<in> T \<Longrightarrow> hoare (kept h0 T L) (call1 f p) (\<lambda>_. kept h0 T L) (kept h0 T [])"
  unfolding hoare_def call1_def
  by (auto split: prod.splits sum.splits intro: kept_update elim: kept_subset [OF kept_update])

lemma update_same: "q < length h \<Longrightarrow> h[q := h ! q] = h"
  by (simp add: list_update_same_conv)

lemma kept_update2:
  assumes "kept h0 T L w" and "p \<in> set L \<or> p \<in> T"
    and "q \<in> set L \<or> q \<in> T \<or> second_unchanged f"
    and "f (heap w ! p) (heap w ! q) = (r, v, u)"
  shows "kept h0 T L (w\<lparr>heap := (heap w)[p := v, q := u]\<rparr>)"
proof (cases "q \<in> set L \<or> q \<in> T")
  case True
  have "kept h0 T L (w\<lparr>heap := (heap w)[p := v]\<rparr>)" using assms(1,2) by (rule kept_update)
  from kept_update [OF this True, of u] show ?thesis by simp
next
  case False
  then have "second_unchanged f" using assms(3) by simp
  then have u: "u = heap w ! q"
    using assms(4) unfolding second_unchanged_def by (metis snd_conv)
  have 1: "kept h0 T L (w\<lparr>heap := (heap w)[p := v]\<rparr>)" using assms(1,2) by (rule kept_update)
  have "p \<noteq> q" using False assms(2) by auto
  then have "(heap w)[p := v, q := u] = (heap w)[p := v]"
    unfolding u by (metis list_update_id list_update_swap)
  then show ?thesis using 1 by simp
qed

lemma hoare_call2:
  assumes "p \<in> set L \<or> p \<in> T" and "q \<in> set L \<or> q \<in> T \<or> second_unchanged f"
  shows "hoare (kept h0 T L) (call2 f p q) (\<lambda>_. kept h0 T L) (kept h0 T [])"
  unfolding hoare_def call2_def
  using assms
  by (auto split: prod.splits sum.splits intro: kept_update2 elim: kept_subset [OF kept_update2])

lemma hoare_compute_metrics:
  assumes "ref < length h0 \<or> ref \<in> set L" and "x < length h0 \<or> x \<in> set L"
  shows "hoare (kept h0 T L) (compute_metrics M A ref x) (\<lambda>_. kept h0 T L) (kept h0 T [])"
proof -
  have step: "kept h0 T L (snd (compute_metrics M A ref x w))" if k: "kept h0 T L w" for w
  proof -
    let ?w' = "snd (compute_metrics M A ref x w)"
    have r: "ref < length (heap w)" and x: "x < length (heap w)"
      using assms k unfolding kept_def by auto
    have fr: "frame (length (heap w)) w ?w'" using r x by (rule compute_metrics_frame)
    have same: "heap ?w' ! p = heap w ! p" if "p < length (heap w)" for p
      using fr that by (rule frame_nth)
    have len: "length (heap w) \<le> length (heap ?w')" using fr by (simp add: frame_def)
    show ?thesis using k same len unfolding kept_def by auto
  qed
  show ?thesis
  proof (rule hoareI)
    fix w e w' assume "kept h0 T L w" "compute_metrics M A ref x w = (Inl e, w')"
    then show "kept h0 T [] w'" using step [of w] by (auto elim: kept_subset)
  next
    fix w r w' assume "kept h0 T L w" "compute_metrics M A ref x w = (Inr r, w')"
    then show "kept h0 T L w'" using step [of w] by simp
  qed
qed

lemma hoare_lift_plain: "hoare (kept h0 T L) (lift v) (\<lambda>_. kept h0 T L) (kept h0 T [])"
  by (rule hoare_weaken [OF hoare_lift]) auto

lemma hoare_deref_plain: "hoare (kept h0 T L) (deref p) (\<lambda>_. kept h0 T L) (kept h0 T [])"
  by (rule hoare_weaken [OF hoare_deref]) auto

lemma hoare_write_views_png:
  "hoare (kept h0 T L) (write_views_png N filebase p) (\<lambda>_. kept h0 T []) (kept h0 T [])"
  unfolding write_views_png_def Let_def
  by (intro hoare_seq [OF hoare_deref_plain] hoare_seq [OF hoare_lift_plain]
      hoare_seq [OF hoare_imwrite] hoare_imwrite_last)

lemma hoare_run_inference:
  assumes "sm \<in> T \<or> models_keep_sensemap E"
  shows "hoare (kept h0 T [])
           (run_inference N E ar nc sz sy kspace_input sm name)
           (\<lambda>r. kept h0 T [r]) (kept h0 T [])"
  unfolding run_inference_def Let_def
proof (rule hoare_seq [OF hoare_lift], rule hoare_pure)
  fix model_run
  assume "deep_recon E (path_join (model_root_dir ar) name) nc sz sy (batch_size ar) = Inr model_run"
  then have ok: "sm \<in> set [] \<or> sm \<in> T \<or> second_unchanged model_run"
    using assms unfolding models_keep_sensemap_def by blast
  show "hoare (kept h0 T [])
          (bindE (np_copy kspace_input)
             (\<lambda>kc. bindE (call2 model_run kc sm) (\<lambda>out. alloc (astype_complex64 N out))))
          (\<lambda>r. kept h0 T [r]) (kept h0 T [])"
  proof (rule hoare_seq [OF hoare_np_copy])
    fix kc
    have c2: "hoare (kept h0 T [kc]) (call2 model_run kc sm) (\<lambda>_. kept h0 T [kc]) (kept h0 T [])"
      using ok by (intro hoare_call2) auto
    have al: "hoare (kept h0 T [kc]) (alloc (astype_complex64 N out)) (\<lambda>r. kept h0 T [r]) (kept h0 T [])"
      for out
      by (rule hoare_weaken [OF hoare_alloc]) (auto elim: kept_subset)
    show "hoare (kept h0 T [kc])
            (bindE (call2 model_run kc sm) (\<lambda>out. alloc (astype_complex64 N out)))
            (\<lambda>r. kept h0 T [r]) (kept h0 T [])"
      by (rule hoare_seq [OF c2]) (rule al)
  qed
qed

lemma hoare_compare_output:
  assumes "image_truth < length h0"
  shows "hoare (kept h0 T [ko]) (compare_output N E M A ar image_truth ko name)
           (\<lambda>_. kept h0 T []) (kept h0 T [])"
  unfolding compare_output_def
  apply (rule hoare_seq [OF hoare_call1], simp)
  apply (rule hoare_seq [OF hoare_alloc])
  apply (rule hoare_seq [OF hoare_compute_metrics])
    apply (simp add: assms)
   apply simp
  apply (rule hoare_seq [OF hoare_call1], simp)
  apply (rule hoare_seq [OF hoare_alloc])
  apply (rule hoare_seq [OF hoare_write_views_png])
  apply (rule hoare_ret)
  done

lemma hoare_report_model:
  assumes "image_truth < length h0"
  shows "hoare (kept h0 T [ko]) (report_model N E M A ar image_truth ko name)
           (\<lambda>_. kept h0 T []) (kept h0 T [])"
  unfolding report_model_def
  by (rule hoare_seq [OF hoare_np_save]) (rule hoare_compare_output [OF assms])

lemma hoare_run_model:
  assumes "sm \<in> T \<or> models_keep_sensemap E" and "image_truth < length h0"
  shows "hoare (kept h0 T [])
           (run_model N E M A ar nc sz sy kspace_input sm image_truth name)
           (\<lambda>_. kept h0 T []) (kept h0 T [])"
  unfolding run_model_def
  by (rule hoare_seq [OF hoare_run_inference [OF assms(1)]]) (rule hoare_report_model [OF assms(2)])

lemma hoare_model_loop:
  assumes "sm \<in> T \<or> models_keep_sensemap E" and "image_truth < length h0"
  shows "hoare (kept h0 T [])
           (model_loop N E M A ar nc sz sy kspace_input sm image_truth names)
           (\<lambda>_. kept h0 T []) (kept h0 T [])"
proof (induction names)
  case Nil
  show ?case by (simp only: model_loop.simps) (rule hoare_ret)
next
  case (Cons name rest)
  show ?case
    apply (simp only: model_loop.simps)
    apply (rule hoare_seq [OF hoare_run_model [OF assms]])
    apply (rule hoare_seq [OF Cons.IH])
    apply (rule hoare_ret)
    done
qed

lemma run_inference_calls:
  assumes "kspace_input < length (heap w)" and "sm < length (heap w)"
  shows "run_inference N E ar nc sz sy kspace_input sm name w =
     (case deep_recon E (path_join (model_root_dir ar) name) nc sz sy (batch_size ar) of
        Inl e \<Rightarrow> (Inl e, w)
      | Inr run \<Rightarrow>
          (case run (heap w ! kspace_input) (heap w ! sm) of
             (Inl e, k', s') \<Rightarrow> (Inl e, w\<lparr>heap := (heap w)[sm := s'] @ [k']\<rparr>)
           | (Inr out, k', s') \<Rightarrow>
               (Inr (Suc (length (heap w))),
                w\<lparr>heap := (heap w)[sm := s'] @ [k', astype_complex64 N out]\<rparr>)))"
proof (cases "deep_recon E (path_join (model_root_dir ar) name) nc sz sy (batch_size ar)")
  case (Inl e)
  then show ?thesis by (simp add: run_inference_def)
next
  case (Inr run)
  obtain r k' s' where f: "run (heap w ! kspace_input) (heap w ! sm) = (r, k', s')"
    by (cases "run (heap w ! kspace_input) (heap w ! sm)") auto
  have upd: "(heap w @ [heap w ! kspace_input])[length (heap w) := k', sm := s']
             = (heap w)[sm := s'] @ [k']"
    using assms(2) by (simp add: list_update_append)
  show ?thesis
    using Inr f assms upd
    by (cases r) (simp_all add: run_inference_def bindE_call2 nth_append alloc_def
        del: list_update.simps)
qed

text \<open>The three ways in which a turn of the loop goes, and the loop by its turns.\<close>

lemma hoare_snd:
  assumes "hoare P m (\<lambda>_. Q) Q" and "P w"
  shows "Q (snd (m w))"
proof -
  obtain r w' where run: "m w = (r, w')" by (cases "m w") auto
  show ?thesis
    using hoare_Inl [OF assms, of _ w'] hoare_Inr [OF assms, of _ w'] run
    by (cases r) simp_all
qed

lemma run_model_outcome:
  assumes "kspace_input < length (heap w)" and "sm < length (heap w)"
    and "image_truth < length (heap w)" and "kspace_input \<noteq> sm"
  obtains
    (construct) e where
      "deep_recon E (path_join (model_root_dir ar) name) nc sz sy (batch_size ar) = Inl e"
      "run_model N E M A ar nc sz sy kspace_input sm image_truth name w = (Inl e, w)"
  | (raises) run e k' s' where
      "deep_recon E (path_join (model_root_dir ar) name) nc sz sy (batch_size ar) = Inr run"
      "run (heap w ! kspace_input) (heap w ! sm) = (Inl e, k', s')"
      "run_model N E M A ar nc sz sy kspace_input sm image_truth name w =
         (Inl e, w\<lparr>heap := (heap w)[sm := s'] @ [k']\<rparr>)"
  | (returns) run out k' s' where
      "deep_recon E (path_join (model_root_dir ar) name) nc sz sy (batch_size ar) = Inr run"
      "run (heap w ! kspace_input) (heap w ! sm) = (Inr out, k', s')"
      "length (heap w)
         \<le> length (heap (snd (run_model N E M A ar nc sz sy kspace_input sm image_truth name w)))"
      "heap (snd (run_model N E M A ar nc sz sy kspace_input sm image_truth name w)) ! kspace_input
         = heap w ! kspace_input"
      "heap (snd (run_model N E M A ar nc sz sy kspace_input sm image_truth name w)) ! sm = s'"
      "filter is_npy
           (files (snd (run_model N E M A ar nc sz sy kspace_input sm image_truth name w))) =
         filter is_npy (files w) @
           [(path_join (output_dir ar) (''kspace_'' @ name @ ''.npy''),
             Npy (astype_complex64 N out))]"
proof (cases "deep_recon E (path_join (model_root_dir ar) name) nc sz sy (batch_size ar)")
  case (Inl e)
  then have "run_inference N E ar nc sz sy kspace_input sm name w = (Inl e, w)"
    using run_inference_calls [OF assms(1,2), of N E ar nc sz sy name] by simp
  then have "run_model N E M A ar nc sz sy kspace_input sm image_truth name w = (Inl e, w)"
    by (simp add: run_model_def bindE_def)
  with Inl show ?thesis by (rule construct)
next
  case dr: (Inr run)
  obtain res k' s' where rn: "run (heap w ! kspace_input) (heap w ! sm) = (res, k', s')"
    by (cases "run (heap w ! kspace_input) (heap w ! sm)") auto
  show ?thesis
  proof (cases res)
    case (Inl e)
    then have "run_inference N E ar nc sz sy kspace_input sm name w =
                 (Inl e, w\<lparr>heap := (heap w)[sm := s'] @ [k']\<rparr>)"
      using run_inference_calls [OF assms(1,2), of N E ar nc sz sy name] dr rn by simp
    then have rm: "run_model N E M A ar nc sz sy kspace_input sm image_truth name w =
                 (Inl e, w\<lparr>heap := (heap w)[sm := s'] @ [k']\<rparr>)"
      by (simp add: run_model_def bindE_def)
    have "run (heap w ! kspace_input) (heap w ! sm) = (Inl e, k', s')"
      using rn Inl by simp
    with dr show ?thesis using rm by (rule raises)
  next
    case (Inr out)
    let ?path = "path_join (output_dir ar) (''kspace_'' @ name @ ''.npy'')"
    let ?h0 = "(heap w)[sm := s']"
    let ?ko = "Suc (length (heap w))"
    let ?w0 = "w\<lparr>heap := ?h0 @ [k', astype_complex64 N out]\<rparr>"
    let ?w0' = "?w0\<lparr>files := files ?w0 @ [(?path, Npy (astype_complex64 N out))]\<rparr>"
    let ?cmp = "compare_output N E M A ar image_truth ?ko name"
    have ri: "run_inference N E ar nc sz sy kspace_input sm name w = (Inr ?ko, ?w0)"
      using run_inference_calls [OF assms(1,2), of N E ar nc sz sy name] dr rn Inr by simp
    have saved: "heap ?w0 ! ?ko = astype_complex64 N out"
      by (simp add: nth_append)
    have rm: "run_model N E M A ar nc sz sy kspace_input sm image_truth name w = ?cmp ?w0'"
      using ri saved by (simp add: run_model_def report_model_def bindE_def np_save_def)
    have k0: "kept ?h0 {} [?ko] ?w0'"
      unfolding kept_def by (simp add: nth_append)
    have it: "image_truth < length ?h0" using assms(3) by simp
    have k1: "kept ?h0 {} [] (snd (?cmp ?w0'))"
      using hoare_compare_output [OF it] k0 by (rule hoare_snd)
    have len: "length (heap w) \<le> length (heap (snd (?cmp ?w0')))"
      using k1 by (simp add: kept_def)
    have same: "heap (snd (?cmp ?w0')) ! p = ?h0 ! p" if "p < length (heap w)" for p
      using k1 that by (simp add: kept_def)
    have ki: "heap (snd (?cmp ?w0')) ! kspace_input = heap w ! kspace_input"
      using same [OF assms(1)] assms(4) by simp
    have s: "heap (snd (?cmp ?w0')) ! sm = s'" using same [OF assms(2)] assms(2) by simp
    have "silent is_npy ?cmp"
      by (rule silent_compare_output) (simp add: is_npy_def)
    then have "filter is_npy (files (snd (?cmp ?w0'))) = filter is_npy (files ?w0')"
      unfolding silent_def by blast
    then have fs: "filter is_npy (files (snd (?cmp ?w0'))) =
        filter is_npy (files w) @ [(?path, Npy (astype_complex64 N out))]"
      by (simp add: is_npy_def)
    show ?thesis
      using dr rn len ki s fs unfolding Inr rm [symmetric] by (rule returns)
  qed
qed

lemma model_loop_trace:
  assumes "kspace_input < length (heap w)" and "sm < length (heap w)"
    and "image_truth < length (heap w)" and "kspace_input \<noteq> sm"
  shows "\<exists>n\<le>length names.
     heap (snd (model_loop N E M A ar nc sz sy kspace_input sm image_truth names w)) ! sm =
       snd (loop_trace N E ar nc sz sy (heap w ! kspace_input) (heap w ! sm) (take n names)) \<and>
     filter is_npy
         (files (snd (model_loop N E M A ar nc sz sy kspace_input sm image_truth names w))) =
       filter is_npy (files w) @
         fst (loop_trace N E ar nc sz sy (heap w ! kspace_input) (heap w ! sm) (take n names)) \<and>
     (\<forall>rs. fst (model_loop N E M A ar nc sz sy kspace_input sm image_truth names w) = Inr rs
        \<longrightarrow> n = length names)"
  using assms
proof (induction names arbitrary: w)
  case Nil
  show ?case by (simp add: ret_def)
next
  case (Cons name rest)
  let ?turn = "run_model N E M A ar nc sz sy kspace_input sm image_truth name"
  let ?rest = "model_loop N E M A ar nc sz sy kspace_input sm image_truth rest"
  let ?loop = "model_loop N E M A ar nc sz sy kspace_input sm image_truth (name # rest)"
  have loop: "?loop w = bindE ?turn (\<lambda>r. bindE ?rest (\<lambda>rs. ret (r # rs))) w"
    by simp
  from Cons.prems show ?case
  proof (cases rule: run_model_outcome [where N = N and E = E and M = M and A = A and ar = ar
        and nc = nc and sz = sz and sy = sy and name = name])
    case (construct e)
    then have "?loop w = (Inl e, w)" unfolding loop by (simp add: bindE_def)
    then show ?thesis by (intro exI [of _ 0]) simp
  next
    case (raises run e k' s')
    then have "?loop w = (Inl e, w\<lparr>heap := (heap w)[sm := s'] @ [k']\<rparr>)"
      unfolding loop by (simp add: bindE_def)
    then show ?thesis
      using raises(1,2) Cons.prems(2) by (intro exI [of _ 1]) (simp add: nth_append)
  next
    case (returns run out k' s')
    obtain res w1 where turn: "?turn w = (res, w1)" by (cases "?turn w") auto
    note after = returns(3-6) [unfolded turn snd_conv]
    show ?thesis
    proof (cases res)
      case (Inl e)
      then have "?loop w = (Inl e, w1)" unfolding loop using turn by (simp add: bindE_def)
      then show ?thesis
        using returns(1,2) after by (intro exI [of _ 1]) simp
    next
      case (Inr r)
      have valid: "kspace_input < length (heap w1)" "sm < length (heap w1)"
        "image_truth < length (heap w1)"
        using Cons.prems(1-3) after(1) by simp_all
      from Cons.IH [OF valid Cons.prems(4), unfolded after(2,3)]
      obtain n where n: "n \<le> length rest"
        "heap (snd (?rest w1)) ! sm =
           snd (loop_trace N E ar nc sz sy (heap w ! kspace_input) s' (take n rest))"
        "filter is_npy (files (snd (?rest w1))) =
           filter is_npy (files w1) @
             fst (loop_trace N E ar nc sz sy (heap w ! kspace_input) s' (take n rest))"
        "\<forall>rs. fst (?rest w1) = Inr rs \<longrightarrow> n = length rest"
        by blast
      obtain res' w' where rest: "?rest w1 = (res', w')" by (cases "?rest w1") auto
      have run: "?loop w = (case res' of Inl e \<Rightarrow> Inl e | Inr rs \<Rightarrow> Inr (r # rs), w')"
        unfolding loop using turn Inr rest by (cases res') (simp_all add: bindE_def ret_def)
      have ends: "n = length rest" if "fst (?loop w) = Inr rs" for rs
        using that n(4) run rest by (cases res') simp_all
      show ?thesis
        using n(1-3) ends returns(1,2) after(4) run rest
        by (intro exI [of _ "Suc n"]) (simp split: prod.splits)
    qed
  qed
qed

text \<open>
  Claim C3, as the code has it.  Line 154 is \<^verbatim>\<open>model.run(kspace_input.copy(), sensemap)\<close>:
  the input k-space is copied, the sensitivity map is not.  So, whatever the models
  do and whether or not the loop ends, the input k-space and every other object that
  existed before the loop, the sensitivity map excepted, hold after it what they held;
  the sensitivity map holds what it held if no model's \<open>run\<close> changes its second
  argument.  And the loop has done what \<open>loop_trace\<close> says, on all the models when it
  ends and on the first \<open>n\<close> of them when a model or a comparison raises: every \<open>run\<close>
  was applied to the contents of the input k-space and to the sensitivity map that
  its predecessor left, the arrays written are the converted outputs of these calls,
  one per model in the order of the list, and the sensitivity map is what the last
  \<open>run\<close> left.
\<close>

theorem model_loop_shared_arrays:
  assumes "kspace_input < length (heap w)" and "sm < length (heap w)"
    and "image_truth < length (heap w)" and "kspace_input \<noteq> sm"
  shows
    "heap (snd (model_loop N E M A ar nc sz sy kspace_input sm image_truth names w)) ! kspace_input
       = heap w ! kspace_input \<and>
     (\<forall>p<length (heap w). p \<noteq> sm \<longrightarrow>
        heap (snd (model_loop N E M A ar nc sz sy kspace_input sm image_truth names w)) ! p
          = heap w ! p) \<and>
     (models_keep_sensemap E \<longrightarrow>
        heap (snd (model_loop N E M A ar nc sz sy kspace_input sm image_truth names w)) ! sm
          = heap w ! sm) \<and>
     (\<exists>n\<le>length names.
        heap (snd (model_loop N E M A ar nc sz sy kspace_input sm image_truth names w)) ! sm
          = snd (loop_trace N E ar nc sz sy (heap w ! kspace_input) (heap w ! sm)
                   (take n names)) \<and>
        filter is_npy
            (files (snd (model_loop N E M A ar nc sz sy kspace_input sm image_truth names w)))
          = filter is_npy (files w) @
              fst (loop_trace N E ar nc sz sy (heap w ! kspace_input) (heap w ! sm)
                     (take n names)) \<and>
        (\<forall>rs. fst (model_loop N E M A ar nc sz sy kspace_input sm image_truth names w) = Inr rs
           \<longrightarrow> n = length names))"
proof -
  let ?loop = "model_loop N E M A ar nc sz sy kspace_input sm image_truth names"
  have start: "kept (heap w) T [] w" for T by (simp add: kept_def)
  have after: "kept (heap w) T [] (snd (?loop w))"
    if "sm \<in> T \<or> models_keep_sensemap E" for T
    using hoare_model_loop [OF that assms(3)] start by (rule hoare_snd)
  have others: "heap (snd (?loop w)) ! p = heap w ! p" if "p < length (heap w)" "p \<noteq> sm" for p
    using after [of "{sm}"] that by (simp add: kept_def)
  have same: "heap (snd (?loop w)) ! sm = heap w ! sm" if "models_keep_sensemap E"
    using after [of "{}"] that assms(2) by (simp add: kept_def)
  note trace = model_loop_trace
    [OF assms, where N = N and E = E and M = M and A = A and ar = ar and nc = nc and sz = sz
       and sy = sy and names = names]
  show ?thesis
    using others assms(1,4) same trace by blast
qed

text \<open>
  Two turns on the objects of the example, with the models that overwrite the k-space
  they are given and double the sensitivity map in place: the input k-space is
  untouched, the second model has worked on the map the first one left, and the map
  ends up four times what it was.  With the models that leave the map alone it is
  unchanged.
\<close>

theorem model_loop_shared_arrays_witness:
  "heap (snd (model_loop float_numpy example_extern scribbling_metrics rat_arith example_args
                1 2 2 1 2 0 [''a'', ''b''] loop_world)) ! 1 = input_array \<and>
   heap (snd (model_loop float_numpy example_extern scribbling_metrics rat_arith example_args
                1 2 2 1 2 0 [''a'', ''b''] loop_world)) ! 0 = truth \<and>
   heap (snd (model_loop float_numpy example_extern scribbling_metrics rat_arith example_args
                1 2 2 1 2 0 [''a'', ''b''] loop_world)) ! 2 =
     \<lparr>shape = [1, 1, 2, 2, 1], data = [Fin 12, Fin 12, Fin 12, Fin 67108868]\<rparr> \<and>
   filter is_npy
     (files (snd (model_loop float_numpy example_extern scribbling_metrics rat_arith example_args
                    1 2 2 1 2 0 [''a'', ''b''] loop_world))) =
     [(''out/kspace_a.npy'',
       Npy \<lparr>shape = [1, 2, 2, 1], data = [Fin 50331648, Fin 0, Fin 100663312, Fin 0]\<rparr>),
      (''out/kspace_b.npy'',
       Npy \<lparr>shape = [1, 2, 2, 1], data = [Fin 100663296, Fin 0, Fin 201326624, Fin 0]\<rparr>)] \<and>
   models_keep_sensemap quiet_extern \<and>
   heap (snd (model_loop float_numpy quiet_extern scribbling_metrics rat_arith example_args
                1 2 2 1 2 0 [''a'', ''b''] loop_world)) ! 2 = stored_map"
proof -
  let ?loop = "model_loop float_numpy example_extern scribbling_metrics rat_arith example_args
                 1 2 2 1 2 0 [''a'', ''b'']"
  let ?quiet = "model_loop float_numpy quiet_extern scribbling_metrics rat_arith example_args
                  1 2 2 1 2 0 [''a'', ''b'']"
  have h: "1 < length (heap loop_world)" "2 < length (heap loop_world)"
    "0 < length (heap loop_world)" "(1::nat) \<noteq> 2"
    by (simp_all add: loop_world_def)
  have at: "heap loop_world ! 0 = truth" "heap loop_world ! 1 = input_array"
    "heap loop_world ! 2 = stored_map" "files loop_world = []"
    by (simp_all add: loop_world_def)
  have "\<exists>rs. fst (?loop loop_world) = Inr rs"
    by (simp add: example_defs)
  then obtain rs where ends: "fst (?loop loop_world) = Inr rs" by blast
  have trace: "loop_trace float_numpy example_extern example_args 1 2 2 input_array stored_map
                 [''a'', ''b''] =
     ([(''out/kspace_a.npy'',
        Npy \<lparr>shape = [1, 2, 2, 1], data = [Fin 50331648, Fin 0, Fin 100663312, Fin 0]\<rparr>),
       (''out/kspace_b.npy'',
        Npy \<lparr>shape = [1, 2, 2, 1], data = [Fin 100663296, Fin 0, Fin 201326624, Fin 0]\<rparr>)],
      \<lparr>shape = [1, 1, 2, 2, 1], data = [Fin 12, Fin 12, Fin 12, Fin 67108868]\<rparr>)"
    by (simp add: example_extern_def example_run_def example_args_def input_array_def
        stored_map_def float_numpy_def astype_complex64_def map_array_def path_join_def
        fl_single_values)
  have keep: "models_keep_sensemap quiet_extern"
    by (simp add: models_keep_sensemap_def quiet_extern_def example_extern_def
        second_unchanged_def quiet_run_def)
  note loud = model_loop_shared_arrays
    [OF h, where N = float_numpy and E = example_extern and M = scribbling_metrics
       and A = rat_arith and ar = example_args and nc = 1 and sz = 2 and sy = 2
       and names = "[''a'', ''b'']"]
  note quiet = model_loop_shared_arrays
    [OF h, where N = float_numpy and E = quiet_extern and M = scribbling_metrics
       and A = rat_arith and ar = example_args and nc = 1 and sz = 2 and sy = 2
       and names = "[''a'', ''b'']"]
  have 1: "heap (snd (?loop loop_world)) ! 1 = input_array"
    using loud at(2) by simp
  have 2: "heap (snd (?loop loop_world)) ! 0 = truth"
    using loud h(3) at(1) by simp
  from loud obtain n where n: "n \<le> length [''a'', ''b'']"
    "heap (snd (?loop loop_world)) ! 2 =
       snd (loop_trace float_numpy example_extern example_args 1 2 2 (heap loop_world ! 1)
              (heap loop_world ! 2) (take n [''a'', ''b'']))"
    "filter is_npy (files (snd (?loop loop_world))) =
       filter is_npy (files loop_world) @
         fst (loop_trace float_numpy example_extern example_args 1 2 2 (heap loop_world ! 1)
                (heap loop_world ! 2) (take n [''a'', ''b'']))"
    "\<forall>rs. fst (?loop loop_world) = Inr rs \<longrightarrow> n = length [''a'', ''b'']"
    by blast
  have all: "take n [''a'', ''b''] = [''a'', ''b'']" using n(4) ends by simp
  have 3: "heap (snd (?loop loop_world)) ! 2 =
             \<lparr>shape = [1, 1, 2, 2, 1], data = [Fin 12, Fin 12, Fin 12, Fin 67108868]\<rparr>"
    using n(2) unfolding all at trace by simp
  have 4: "filter is_npy (files (snd (?loop loop_world))) =
     [(''out/kspace_a.npy'',
       Npy \<lparr>shape = [1, 2, 2, 1], data = [Fin 50331648, Fin 0, Fin 100663312, Fin 0]\<rparr>),
      (''out/kspace_b.npy'',
       Npy \<lparr>shape = [1, 2, 2, 1], data = [Fin 100663296, Fin 0, Fin 201326624, Fin 0]\<rparr>)]"
    using n(3) unfolding all at trace by simp
  have 5: "heap (snd (?quiet loop_world)) ! 2 = stored_map"
    using quiet keep at(3) by simp
  show ?thesis using 1 2 3 4 keep 5 by blast
qed

text \<open>
  The claim as the specification words it (copies of both arrays are passed, no model
  can change the shared sensitivity map, every model consumes the identical map) fails
  on that run: after the loop the sensitivity map is not what it was, and the two
  models, which are the same routine on the same input k-space, have written different
  outputs, the first one 3 times the input k-space and the second one 6 times, from
  the map the first one left.
\<close>

theorem model_loop_two_models_counterexample:
  "heap (snd (model_loop float_numpy example_extern scribbling_metrics rat_arith example_args
                1 2 2 1 2 0 [''a'', ''b''] loop_world)) ! 2 \<noteq> heap loop_world ! 2 \<and>
   map_of (files (snd (model_loop float_numpy example_extern scribbling_metrics rat_arith
                         example_args 1 2 2 1 2 0 [''a'', ''b''] loop_world))) ''out/kspace_a.npy''
     = Some (Npy \<lparr>shape = [1, 2, 2, 1],
                  data = [Fin 50331648, Fin 0, Fin 100663312, Fin 0]\<rparr>) \<and>
   map_of (files (snd (model_loop float_numpy example_extern scribbling_metrics rat_arith
                         example_args 1 2 2 1 2 0 [''a'', ''b''] loop_world))) ''out/kspace_b.npy''
     = Some (Npy \<lparr>shape = [1, 2, 2, 1],
                  data = [Fin 100663296, Fin 0, Fin 201326624, Fin 0]\<rparr>)"
  by (simp add: example_defs)

end
